theory Spec2Isabelle
  imports Main "HOL-Library.Sublist"
begin

section \<open>Bufisk: resolve a buf version, install the verified release, launch it\<close>

text \<open>
  A shallow embedding of \<^verbatim>\<open>bufisk.go\<close> and \<^verbatim>\<open>bufisk_unix.go\<close>. Go strings
  are byte sequences and are modelled as \<^typ>\<open>string\<close> (a list of 8-bit characters).
  A Go \<^verbatim>\<open>error\<close> result is a value of the datatype \<open>error\<close>; a function returning
  \<^verbatim>\<open>(T, error)\<close> returns \<open>error + T\<close>, one returning only \<^verbatim>\<open>error\<close> returns
  \<open>error option\<close> (\<open>None\<close> is \<^verbatim>\<open>nil\<close>).
\<close>

type_synonym path = string
type_synonym url = string
type_synonym bytes = string

subsection \<open>Errors\<close>

text \<open>
  One constructor for each \<^verbatim>\<open>fmt.Errorf\<close> and \<^verbatim>\<open>errors.New\<close> of the source, holding the
  arguments of the format string in the order the source passes them. \<open>OSError\<close> stands
  for any error value produced by the operating system or a library.
\<close>

datatype error =
    OSError string
  | InvalidBufVersion string string
  | VersionNotFound
  | CacheDirNotSet
  | CouldNotDownloadBuf string error
  | RemoveSourceFailed path error
  | CouldNotHash path error
  | Sha256Mismatch string string string
  | KeyIDMismatch nat nat
  | SignatureVerificationFailed
  | HTTPStatus url nat
  | InvalidSha256TxtLine string
  | NotInSha256Txt string bytes

subsection \<open>Library functions on strings\<close>

text \<open>
  \<^verbatim>\<open>strings.Split(s, sep)\<close> for a non-empty separator: cut at the leftmost occurrence
  of \<open>sep\<close>, continue after it. The accumulator holds the bytes of the current piece
  in reverse. (With an empty separator Go splits into UTF-8 sequences; the program
  never does that, and the model then returns the string as its only piece.)
\<close>

function Split_from :: "string \<Rightarrow> string \<Rightarrow> string \<Rightarrow> string list" where
  "Split_from sep acc [] = [rev acc]"
| "Split_from sep acc (c # cs) =
     (if sep \<noteq> [] \<and> prefix sep (c # cs)
      then rev acc # Split_from sep [] (drop (length sep) (c # cs))
      else Split_from sep (c # acc) cs)"
  by pat_completeness auto
termination
  by (relation "measure (\<lambda>(sep, acc, s). length s)") auto

definition Split :: "string \<Rightarrow> string \<Rightarrow> string list" where
  "Split s sep = Split_from sep [] s"

text \<open>
  \<^verbatim>\<open>strconv.Atoi\<close>: an optional single sign, then one or more decimal digits, and the
  value must fit the Go \<^verbatim>\<open>int\<close> (64 bits on the release targets). No underscores, no
  spaces. \<open>None\<close> is a non-nil error (syntax or range).
\<close>

definition isDigit :: "char \<Rightarrow> bool" where
  "isDigit c = (48 \<le> (of_char c :: nat) \<and> (of_char c :: nat) \<le> 57)"

definition digitsValue :: "string \<Rightarrow> nat" where
  "digitsValue ds = foldl (\<lambda>n c. n * 10 + ((of_char c :: nat) - 48)) 0 ds"

definition intSize :: nat where
  "intSize = 64"

definition Atoi :: "string \<Rightarrow> int option" where
  "Atoi s =
     (let neg = (s \<noteq> [] \<and> hd s = CHR ''-'');
          ds = (if s \<noteq> [] \<and> (hd s = CHR ''-'' \<or> hd s = CHR ''+'') then tl s else s)
      in if ds = [] \<or> \<not> list_all isDigit ds then None
         else if \<not> neg \<and> 2 ^ (intSize - 1) \<le> digitsValue ds then None
         else if neg \<and> 2 ^ (intSize - 1) < digitsValue ds then None
         else Some (if neg then - int (digitsValue ds) else int (digitsValue ds)))"

subsection \<open>Version validation\<close>

definition newInvalidBufVersionError :: "string \<Rightarrow> string \<Rightarrow> error" where
  "newInvalidBufVersionError bufVersion source = InvalidBufVersion bufVersion source"

definition validateBufVersion :: "string \<Rightarrow> string \<Rightarrow> error + string" where
  "validateBufVersion bufVersion source =
     (let split = Split bufVersion ''.''
      in if length split \<noteq> 3 then Inl (newInvalidBufVersionError bufVersion source)
         else if list_ex (\<lambda>s. Atoi s = None) split
         then Inl (newInvalidBufVersionError bufVersion source)
         else Inr bufVersion)"

text \<open>
  The two readings of a "numeric component" that the analysis of
  \<open>validateBufVersion\<close> compares: a non-empty run of decimal digits whose value fits the
  Go \<^verbatim>\<open>int\<close>, and what \<^verbatim>\<open>strconv.Atoi\<close> takes (the same after an optional sign, the
  most negative \<^verbatim>\<open>int\<close> included).
\<close>

definition unsignedComponent :: "string \<Rightarrow> bool" where
  "unsignedComponent s = (s \<noteq> [] \<and> list_all isDigit s \<and> digitsValue s < 2 ^ (intSize - 1))"

definition signedComponent :: "string \<Rightarrow> bool" where
  "signedComponent s =
     (unsignedComponent s
      \<or> (\<exists>ds. s = CHR ''+'' # ds \<and> unsignedComponent ds)
      \<or> (\<exists>ds. s = CHR ''-'' # ds \<and> ds \<noteq> [] \<and> list_all isDigit ds
               \<and> digitsValue ds \<le> 2 ^ (intSize - 1)))"

subsection \<open>White space and paths\<close>

text \<open>
  \<^verbatim>\<open>strings.TrimSpace\<close> removes the leading and trailing white-space runes of
  \<^verbatim>\<open>unicode.IsSpace\<close>. On the bytes of the string these are the six ASCII bytes and the
  UTF-8 encodings of U+0085, U+00A0, U+1680, U+2000 to U+200A, U+2028, U+2029, U+202F,
  U+205F and U+3000. Trimming on the right is trimming the reversed string by the
  reversed encodings.
\<close>

definition spaceRunes :: "string list" where
  "spaceRunes =
     [[CHR 0x09], [CHR 0x0A], [CHR 0x0B], [CHR 0x0C], [CHR 0x0D], [CHR 0x20],
      [CHR 0xC2, CHR 0x85], [CHR 0xC2, CHR 0xA0], [CHR 0xE1, CHR 0x9A, CHR 0x80],
      [CHR 0xE2, CHR 0x80, CHR 0x80], [CHR 0xE2, CHR 0x80, CHR 0x81],
      [CHR 0xE2, CHR 0x80, CHR 0x82], [CHR 0xE2, CHR 0x80, CHR 0x83],
      [CHR 0xE2, CHR 0x80, CHR 0x84], [CHR 0xE2, CHR 0x80, CHR 0x85],
      [CHR 0xE2, CHR 0x80, CHR 0x86], [CHR 0xE2, CHR 0x80, CHR 0x87],
      [CHR 0xE2, CHR 0x80, CHR 0x88], [CHR 0xE2, CHR 0x80, CHR 0x89],
      [CHR 0xE2, CHR 0x80, CHR 0x8A], [CHR 0xE2, CHR 0x80, CHR 0xA8],
      [CHR 0xE2, CHR 0x80, CHR 0xA9], [CHR 0xE2, CHR 0x80, CHR 0xAF],
      [CHR 0xE2, CHR 0x81, CHR 0x9F], [CHR 0xE3, CHR 0x80, CHR 0x80]]"

definition runeWidth :: "string list \<Rightarrow> string \<Rightarrow> nat" where
  "runeWidth runes s = (case find (\<lambda>r. prefix r s) runes of None \<Rightarrow> 0 | Some r \<Rightarrow> length r)"

fun trimRunes :: "string list \<Rightarrow> string \<Rightarrow> string" where
  "trimRunes runes [] = []"
| "trimRunes runes (c # cs) =
     (case runeWidth runes (c # cs) of
        0 \<Rightarrow> c # cs
      | Suc n \<Rightarrow> trimRunes runes (drop n cs))"

definition TrimSpace :: "string \<Rightarrow> string" where
  "TrimSpace s = rev (trimRunes (map rev spaceRunes) (rev (trimRunes spaceRunes s)))"

text \<open>
  \<^verbatim>\<open>strings.Join\<close>, and \<^verbatim>\<open>filepath.Clean\<close>, \<^verbatim>\<open>filepath.Join\<close> and \<^verbatim>\<open>filepath.Dir\<close> of
  the unix-like build (separator \<^verbatim>\<open>/\<close>, no volume names). \<open>Clean\<close> drops empty and
  \<^verbatim>\<open>.\<close> components, lets \<^verbatim>\<open>..\<close> remove the component before it (at the root it is
  dropped, at the start of a relative path it is kept), and returns \<^verbatim>\<open>.\<close> for an
  empty result.
\<close>

fun strings_Join :: "string list \<Rightarrow> string \<Rightarrow> string" where
  "strings_Join [] sep = []"
| "strings_Join [x] sep = x"
| "strings_Join (x # y # ys) sep = x @ sep @ strings_Join (y # ys) sep"

fun cleanComponents :: "bool \<Rightarrow> string list \<Rightarrow> string list \<Rightarrow> string list" where
  "cleanComponents rooted out [] = rev out"
| "cleanComponents rooted out (c # cs) =
     (if c = [] \<or> c = ''.'' then cleanComponents rooted out cs
      else if c = ''..'' then
        (case out of
           [] \<Rightarrow> if rooted then cleanComponents rooted [] cs
                 else cleanComponents rooted [''..''] cs
         | x # xs \<Rightarrow> if x = ''..'' then cleanComponents rooted (''..'' # out) cs
                     else cleanComponents rooted xs cs)
      else cleanComponents rooted (c # out) cs)"

definition Clean :: "path \<Rightarrow> path" where
  "Clean p =
     (if p = [] then ''.''
      else let rooted = (hd p = CHR ''/'');
               body = strings_Join (cleanComponents rooted [] (Split p ''/'')) ''/''
           in if rooted then CHR ''/'' # body
              else if body = [] then ''.'' else body)"

definition Join :: "string list \<Rightarrow> path" where
  "Join elem =
     (let rest = dropWhile (\<lambda>x. x = []) elem
      in if rest = [] then [] else Clean (strings_Join rest ''/''))"

definition Dir :: "path \<Rightarrow> path" where
  "Dir p = Clean (rev (dropWhile (\<lambda>c. c \<noteq> CHR ''/'') (rev p)))"

subsection \<open>The environment of one run\<close>

text \<open>
  \<open>env\<close> holds everything the run reads and does not decide: the process environment,
  the working directory, the readable files on the way to the root, the command line,
  the platform constants \<^verbatim>\<open>unameS\<close> and \<^verbatim>\<open>unameM\<close> (declared in build-tagged files),
  the server's answer for each URL, the name \<^verbatim>\<open>os.CreateTemp\<close> picks, and the library
  functions of \<^verbatim>\<open>aead.dev/minisign\<close> and \<^verbatim>\<open>crypto/sha256\<close>.

  Every system call can fail. The \<open>n\<close>-th call of the run (counted by the length of the
  trace) fails with \<open>err\<close> when \<open>faults n = Some err\<close>; a failing \<^verbatim>\<open>io.Copy\<close> into a file
  has written the first \<open>shortWrite n\<close> bytes.
\<close>

record Response =
  StatusCode :: nat
  Body :: bytes

record PublicKey =
  ID :: nat
  keyBytes :: bytes

record Signature =
  KeyID :: nat
  signatureBytes :: bytes

record env =
  getenv :: "string \<Rightarrow> string"
  getwd :: "error + path"
  readFile :: "path \<Rightarrow> error + bytes"
  args :: "string list"
  unameS :: string
  unameM :: string
  http :: "url \<Rightarrow> Response"
  tempName :: path
  faults :: "nat \<Rightarrow> error option"
  shortWrite :: "nat \<Rightarrow> nat"
  publicKeyUnmarshalText :: "string \<Rightarrow> error + PublicKey"
  signatureUnmarshalText :: "bytes \<Rightarrow> error + Signature"
  signatureMarshalText :: "Signature \<Rightarrow> error + bytes"
  minisignVerify :: "PublicKey \<Rightarrow> bytes \<Rightarrow> bytes \<Rightarrow> bool"
  hexSha256 :: "bytes \<Rightarrow> string"

text \<open>
  The state of the run: the regular files it can see (path to content) and the trace of
  the calls made so far, each with a flag telling whether it succeeded. The calls
  \<open>Verify\<close> (\<^verbatim>\<open>minisign.Verify\<close>) and \<open>GetSha256Hex\<close> (\<^verbatim>\<open>getSha256HexForTxtData\<close>) are
  pure; they are traced because the order of verification and hash extraction is
  specified.
\<close>

datatype call =
    Stat path
  | NewRequest url
  | Do url
  | ReadAll url
  | BodyClose url
  | CreateTemp
  | CopyTo path
  | HashCopy path
  | Close path
  | Open path
  | Create path
  | MkdirAll path
  | Chmod path
  | Remove path
  | Verify
  | GetSha256Hex
  | Fprintf
  | Run path "string list"

type_synonym event = "call \<times> bool"

record world =
  files :: "path \<rightharpoonup> bytes"
  trace :: "event list"

definition logCall :: "call \<Rightarrow> bool \<Rightarrow> world \<Rightarrow> world" where
  "logCall c ok w = w\<lparr>trace := trace w @ [(c, ok)]\<rparr>"

definition sys :: "env \<Rightarrow> call \<Rightarrow> world \<Rightarrow> error option \<times> world" where
  "sys e c w = (let r = faults e (length (trace w)) in (r, logCall c (r = None) w))"

text \<open>A call on a path that must name an existing file (stat, open, chmod, remove, exec).\<close>

definition sysOn :: "env \<Rightarrow> call \<Rightarrow> path \<Rightarrow> world \<Rightarrow> error option \<times> world" where
  "sysOn e c p w =
     (if files w p = None then (Some (OSError ''no such file or directory''), logCall c False w)
      else sys e c w)"

definition osCreateTemp :: "env \<Rightarrow> world \<Rightarrow> (error + path) \<times> world" where
  "osCreateTemp e w =
     (case sys e CreateTemp w of
        (Some err, w1) \<Rightarrow> (Inl err, w1)
      | (None, w1) \<Rightarrow> (Inr (tempName e), w1\<lparr>files := (files w1)(tempName e \<mapsto> [])\<rparr>))"

definition osCreate :: "env \<Rightarrow> path \<Rightarrow> world \<Rightarrow> error option \<times> world" where
  "osCreate e p w =
     (case sys e (Create p) w of
        (Some err, w1) \<Rightarrow> (Some err, w1)
      | (None, w1) \<Rightarrow> (None, w1\<lparr>files := (files w1)(p \<mapsto> [])\<rparr>))"

definition osRemove :: "env \<Rightarrow> path \<Rightarrow> world \<Rightarrow> error option \<times> world" where
  "osRemove e p w =
     (case sysOn e (Remove p) p w of
        (Some err, w1) \<Rightarrow> (Some err, w1)
      | (None, w1) \<Rightarrow> (None, w1\<lparr>files := (files w1)(p := None)\<rparr>))"

text \<open>\<^verbatim>\<open>io.Copy(file, reader)\<close> into a file just created: all of \<open>data\<close>, or a prefix and an error.\<close>

definition ioCopy :: "env \<Rightarrow> path \<Rightarrow> bytes \<Rightarrow> world \<Rightarrow> error option \<times> world" where
  "ioCopy e dst data w =
     (case sys e (CopyTo dst) w of
        (Some err, w1) \<Rightarrow>
          (Some err, w1\<lparr>files := (files w1)(dst \<mapsto> take (shortWrite e (length (trace w))) data)\<rparr>)
      | (None, w1) \<Rightarrow> (None, w1\<lparr>files := (files w1)(dst \<mapsto> data)\<rparr>))"

definition contents :: "world \<Rightarrow> path \<Rightarrow> bytes" where
  "contents w p = (case files w p of None \<Rightarrow> [] | Some data \<Rightarrow> data)"

subsection \<open>Version resolution\<close>

definition cacheDirPathEnvKey :: string where
  "cacheDirPathEnvKey = ''BUFISK_CACHE_DIR''"

definition useBufVersionEnvKey :: string where
  "useBufVersionEnvKey = ''BUF_VERSION''"

definition bufVersionFileName :: string where
  "bufVersionFileName = ''.bufversion''"

definition minisignPublicKey :: string where
  "minisignPublicKey = ''RWQ/i9xseZwBVE7pEniCNjlNOeeyp4BQgdZDLQcAohxEAH5Uj5DEKjv6''"

definition PathSeparator :: string where
  "PathSeparator = ''/''"

definition executableSuffix :: string where
  "executableSuffix = []"

text \<open>
  The loop of \<open>getBufVersion\<close>. It ends at the first directory whose version file can
  be read, or at the root; for a path from which \<open>Dir\<close> never reaches the root (a
  relative one) it does not end, which is the value \<open>None\<close>.
\<close>

partial_function (option) getBufVersion_loop :: "env \<Rightarrow> path \<Rightarrow> (error + string) option" where
  "getBufVersion_loop e curDirPath =
     (case readFile e (Join [curDirPath, bufVersionFileName]) of
        Inr data \<Rightarrow>
          Some (validateBufVersion (TrimSpace data) (Join [curDirPath, bufVersionFileName]))
      | Inl err \<Rightarrow>
          if curDirPath = PathSeparator then Some (Inl VersionNotFound)
          else getBufVersion_loop e (Dir curDirPath))"

definition getBufVersion :: "env \<Rightarrow> (error + string) option" where
  "getBufVersion e =
     (if getenv e useBufVersionEnvKey \<noteq> []
      then Some (validateBufVersion (getenv e useBufVersionEnvKey) useBufVersionEnvKey)
      else case getwd e of
             Inl err \<Rightarrow> Some (Inl err)
           | Inr pwd \<Rightarrow> getBufVersion_loop e pwd)"

subsection \<open>Download\<close>

definition getFileURL :: "string \<Rightarrow> string \<Rightarrow> url" where
  "getFileURL bufVersion fileName =
     ''https://github.com/bufbuild/buf/releases/download/v'' @ bufVersion @ ''/'' @ fileName"

text \<open>
  \<open>download\<close>: the deferred \<^verbatim>\<open>response.Body.Close()\<close> runs on every return after
  \<^verbatim>\<open>Do\<close>, and its error is returned only when there is no other.
\<close>

definition download ::
  "env \<Rightarrow> url \<Rightarrow> (bytes \<Rightarrow> world \<Rightarrow> (error + 'a) \<times> world) \<Rightarrow> world \<Rightarrow> (error + 'a) \<times> world" where
  "download e u processResponseBody w =
     (case sys e (NewRequest u) w of
        (Some err, w1) \<Rightarrow> (Inl err, w1)
      | (None, w1) \<Rightarrow>
          (case sys e (Do u) w1 of
             (Some err, w2) \<Rightarrow> (Inl err, w2)
           | (None, w2) \<Rightarrow>
               (case (if StatusCode (http e u) \<noteq> 200
                      then (Inl (HTTPStatus u (StatusCode (http e u))), w2)
                      else processResponseBody (Body (http e u)) w2) of
                  (ret, w3) \<Rightarrow>
                    (case sys e (BodyClose u) w3 of
                       (Some err, w4) \<Rightarrow> (case ret of Inl r \<Rightarrow> (Inl r, w4) | Inr x \<Rightarrow> (Inl err, w4))
                     | (None, w4) \<Rightarrow> (ret, w4)))))"

text \<open>
  \<open>downloadTempFile\<close>: the closure creates the file, copies the body into it and closes
  it (deferred; the error of \<^verbatim>\<open>Close\<close> counts only when the copy succeeded). The path
  reaches the caller only when \<open>download\<close> returns no error.
\<close>

definition downloadTempFile :: "env \<Rightarrow> url \<Rightarrow> world \<Rightarrow> (error + path) \<times> world" where
  "downloadTempFile e u w =
     download e u
       (\<lambda>reader w0.
          case osCreateTemp e w0 of
            (Inl err, w1) \<Rightarrow> (Inl err, w1)
          | (Inr file, w1) \<Rightarrow>
              (case ioCopy e file reader w1 of
                 (copyErr, w2) \<Rightarrow>
                   (case sys e (Close file) w2 of
                      (closeErr, w3) \<Rightarrow>
                        (case copyErr of
                           Some err \<Rightarrow> (Inl err, w3)
                         | None \<Rightarrow>
                             (case closeErr of
                                Some err \<Rightarrow> (Inl err, w3)
                              | None \<Rightarrow> (Inr file, w3)))))) w"

definition downloadData :: "env \<Rightarrow> url \<Rightarrow> world \<Rightarrow> (error + bytes) \<times> world" where
  "downloadData e u w =
     download e u
       (\<lambda>reader w0.
          case sys e (ReadAll u) w0 of
            (Some err, w1) \<Rightarrow> (Inl err, w1)
          | (None, w1) \<Rightarrow> (Inr reader, w1)) w"

subsection \<open>Verification\<close>

text \<open>
  \<open>hashFile\<close>: the deferred \<^verbatim>\<open>Close\<close> overwrites the returned error whenever it fails.
\<close>

definition hashFile :: "env \<Rightarrow> path \<Rightarrow> world \<Rightarrow> (error + string) \<times> world" where
  "hashFile e filePath w =
     (case sysOn e (Open filePath) filePath w of
        (Some err, w1) \<Rightarrow> (Inl err, w1)
      | (None, w1) \<Rightarrow>
          (case sys e (HashCopy filePath) w1 of
             (copyErr, w2) \<Rightarrow>
               (case sys e (Close filePath) w2 of
                  (Some err, w3) \<Rightarrow> (Inl err, w3)
                | (None, w3) \<Rightarrow>
                    (case copyErr of
                       Some err \<Rightarrow> (Inl err, w3)
                     | None \<Rightarrow> (Inr (hexSha256 e (contents w1 filePath)), w3)))))"

definition verifySha256TxtData :: "env \<Rightarrow> bytes \<Rightarrow> bytes \<Rightarrow> world \<Rightarrow> error option \<times> world" where
  "verifySha256TxtData e sha256TxtData sha256TxtMinisigData w =
     (case publicKeyUnmarshalText e minisignPublicKey of
        Inl err \<Rightarrow> (Some err, w)
      | Inr publicKey \<Rightarrow>
          (case signatureUnmarshalText e sha256TxtMinisigData of
             Inl err \<Rightarrow> (Some err, w)
           | Inr signature \<Rightarrow>
               if KeyID signature \<noteq> ID publicKey
               then (Some (KeyIDMismatch (ID publicKey) (KeyID signature)), w)
               else (case signatureMarshalText e signature of
                       Inl err \<Rightarrow> (Some err, w)
                     | Inr rawSignature \<Rightarrow>
                         if \<not> minisignVerify e publicKey sha256TxtData rawSignature
                         then (Some SignatureVerificationFailed, logCall Verify False w)
                         else (None, logCall Verify True w))))"

fun getSha256HexForLines :: "string list \<Rightarrow> string \<Rightarrow> (error + string) option" where
  "getSha256HexForLines [] fileName = None"
| "getSha256HexForLines (line # rest) fileName =
     (if suffix fileName line
      then (if length (Split line ''  '') \<noteq> 2 then Some (Inl (InvalidSha256TxtLine line))
            else Some (Inr (hd (Split line ''  ''))))
      else getSha256HexForLines rest fileName)"

definition getSha256HexForTxtData :: "bytes \<Rightarrow> string \<Rightarrow> error + string" where
  "getSha256HexForTxtData sha256TxtData fileName =
     (case getSha256HexForLines (Split sha256TxtData [CHR 0x0A]) fileName of
        Some r \<Rightarrow> r
      | None \<Rightarrow> Inl (NotInSha256Txt fileName sha256TxtData))"

subsection \<open>Installation\<close>

text \<open>
  \<open>copyFile\<close> opens the source, creates (truncates) the destination itself and copies
  into it. The two deferred \<^verbatim>\<open>Close\<close> calls run in reverse order of their registration,
  and each reports its error only when there is no other.
\<close>

definition copyFile :: "env \<Rightarrow> path \<Rightarrow> path \<Rightarrow> world \<Rightarrow> error option \<times> world" where
  "copyFile e fromFilePath toFilePath w =
     (case sys e (MkdirAll (Dir toFilePath)) w of
        (Some err, w1) \<Rightarrow> (Some err, w1)
      | (None, w1) \<Rightarrow>
          (case sysOn e (Open fromFilePath) fromFilePath w1 of
             (Some err, w2) \<Rightarrow> (Some err, w2)
           | (None, w2) \<Rightarrow>
               (case (case osCreate e toFilePath w2 of
                        (Some err, w3) \<Rightarrow> (Some err, w3)
                      | (None, w3) \<Rightarrow>
                          (case ioCopy e toFilePath (contents w3 fromFilePath) w3 of
                             (copyErr, w4) \<Rightarrow>
                               (case sys e (Close toFilePath) w4 of
                                  (closeErr, w5) \<Rightarrow>
                                    (if copyErr = None then closeErr else copyErr, w5)))) of
                  (ret, w6) \<Rightarrow>
                    (case sys e (Close fromFilePath) w6 of
                       (closeErr, w7) \<Rightarrow> (if ret = None then closeErr else ret, w7)))))"

text \<open>
  \<open>downloadBufToFilePath\<close>; \<open>bufFileName\<close> is its local \<^verbatim>\<open>fileName\<close> (line 144). The deferred \<^verbatim>\<open>os.Remove(tempFilePath)\<close> is registered once
  \<open>downloadTempFile\<close> has returned a path, and runs on every return after that.
\<close>

definition bufFileName :: "env \<Rightarrow> string" where
  "bufFileName e = ''buf-'' @ unameS e @ ''-'' @ unameM e @ executableSuffix"

definition downloadBufToFilePath :: "env \<Rightarrow> string \<Rightarrow> path \<Rightarrow> world \<Rightarrow> error option \<times> world" where
  "downloadBufToFilePath e bufVersion bufFilePath w =
     (let fileName = bufFileName e in
      case downloadTempFile e (getFileURL bufVersion fileName) w of
        (Inl err, w1) \<Rightarrow> (Some (CouldNotDownloadBuf bufVersion err), w1)
      | (Inr tempFilePath, w1) \<Rightarrow>
          (case (case downloadData e (getFileURL bufVersion ''sha256.txt'') w1 of
                   (Inl err, w2) \<Rightarrow> (Some err, w2)
                 | (Inr sha256TxtData, w2) \<Rightarrow>
                     (case downloadData e (getFileURL bufVersion ''sha256.txt.minisig'') w2 of
                        (Inl err, w3) \<Rightarrow> (Some err, w3)
                      | (Inr sha256TxtMinisigData, w3) \<Rightarrow>
                          (case verifySha256TxtData e sha256TxtData sha256TxtMinisigData w3 of
                             (Some err, w4) \<Rightarrow> (Some err, w4)
                           | (None, w4) \<Rightarrow>
                               (case getSha256HexForTxtData sha256TxtData fileName of
                                  Inl err \<Rightarrow> (Some err, logCall GetSha256Hex False w4)
                                | Inr sha256ExpectedHex \<Rightarrow>
                                    (case hashFile e tempFilePath (logCall GetSha256Hex True w4) of
                                       (Inl err, w5) \<Rightarrow> (Some (CouldNotHash tempFilePath err), w5)
                                     | (Inr sha256Hex, w5) \<Rightarrow>
                                         if sha256Hex \<noteq> sha256ExpectedHex
                                         then (Some (Sha256Mismatch fileName sha256Hex sha256ExpectedHex), w5)
                                         else (case copyFile e tempFilePath bufFilePath w5 of
                                                 (Some err, w6) \<Rightarrow> (Some err, w6)
                                               | (None, w6) \<Rightarrow>
                                                   sysOn e (Chmod bufFilePath) bufFilePath w6)))))) of
             (ret, w7) \<Rightarrow>
               (case osRemove e tempFilePath w7 of
                  (Some err, w8) \<Rightarrow>
                    (if ret = None then Some (RemoveSourceFailed tempFilePath err) else ret, w8)
                | (None, w8) \<Rightarrow> (ret, w8))))"

subsection \<open>The run\<close>

definition getDefaultCacheDirPath :: "env \<Rightarrow> error + path" where
  "getDefaultCacheDirPath e =
     (if getenv e ''XDG_CACHE_HOME'' \<noteq> [] then Inr (getenv e ''XDG_CACHE_HOME'')
      else if getenv e ''HOME'' \<noteq> [] then Inr (Join [getenv e ''HOME'', ''.cache''])
      else Inl CacheDirNotSet)"

definition getCacheDirPath :: "env \<Rightarrow> error + path" where
  "getCacheDirPath e =
     (if getenv e cacheDirPathEnvKey = []
      then (case getDefaultCacheDirPath e of
              Inl err \<Rightarrow> Inl err
            | Inr cacheDirPath \<Rightarrow> Inr (Join [cacheDirPath, ''bufisk'']))
      else Inr (getenv e cacheDirPathEnvKey))"

definition getBufFilePath :: "env \<Rightarrow> path \<Rightarrow> string \<Rightarrow> path" where
  "getBufFilePath e cacheDirPath bufVersion =
     Join [cacheDirPath, unameS e, unameM e, ''releases'', ''buf'', bufVersion, ''bin'', ''buf'']"

text \<open>
  \<open>run\<close>, without the interrupt handler (a goroutine that cancels the context). The
  cache directory (lines 78 to 85) and the path of the binary (line 86) are the two
  definitions above. \<open>None\<close>: the search for the version file does not end.
\<close>

definition run :: "env \<Rightarrow> world \<Rightarrow> (error option \<times> world) option" where
  "run e w =
     (case getBufVersion e of
        None \<Rightarrow> None
      | Some (Inl err) \<Rightarrow> Some (Some err, w)
      | Some (Inr bufVersion) \<Rightarrow>
          (case getCacheDirPath e of
             Inl err \<Rightarrow> Some (Some err, w)
           | Inr cacheDirPath \<Rightarrow>
               (let bufFilePath = getBufFilePath e cacheDirPath bufVersion in
                case sysOn e (Stat bufFilePath) bufFilePath w of
                  (None, w1) \<Rightarrow> Some (sysOn e (Run bufFilePath (args e)) bufFilePath w1)
                | (Some statErr, w1) \<Rightarrow>
                    (case downloadBufToFilePath e bufVersion bufFilePath w1 of
                       (Some err, w2) \<Rightarrow> Some (Some err, w2)
                     | (None, w2) \<Rightarrow>
                         (case sys e Fprintf w2 of
                            (Some err, w3) \<Rightarrow> Some (Some err, w3)
                          | (None, w3) \<Rightarrow>
                              Some (sysOn e (Run bufFilePath (args e)) bufFilePath w3))))))"

subsection \<open>Observing a run\<close>

text \<open>
  The events a function adds to the trace, and the order of events: \<open>precedes A B t\<close>
  says that no event satisfying \<open>B\<close> occurs in \<open>t\<close> unless one satisfying \<open>A\<close> occurs
  earlier.
\<close>

definition newTrace :: "world \<Rightarrow> world \<Rightarrow> event list" where
  "newTrace w w' = drop (length (trace w)) (trace w')"

fun precedes :: "(event \<Rightarrow> bool) \<Rightarrow> (event \<Rightarrow> bool) \<Rightarrow> event list \<Rightarrow> bool" where
  "precedes A B [] = True"
| "precedes A B (x # xs) = (if A x then True else if B x then False else precedes A B xs)"

definition calls :: "event list \<Rightarrow> call list" where
  "calls t = map fst t"

text \<open>
  \<open>onlyAfter a b t\<close>: in \<open>t\<close> the call \<open>b\<close> is made only after the call \<open>a\<close> has
  succeeded. \<open>succeeded cs\<close> is the trace of the calls \<open>cs\<close> all succeeding.

  \<open>failStop N t\<close>: the trace \<open>t\<close> follows the list of calls \<open>N\<close> as long as the calls
  succeed; after the first call that fails, and after the point where \<open>t\<close> leaves
  \<open>N\<close>, there are only cleanup calls (\<^verbatim>\<open>Close\<close> of a file or of a response body,
  \<^verbatim>\<open>Remove\<close>).
\<close>

definition onlyAfter :: "call \<Rightarrow> call \<Rightarrow> event list \<Rightarrow> bool" where
  "onlyAfter a b t = precedes (\<lambda>ev. ev = (a, True)) (\<lambda>ev. fst ev = b) t"

definition succeeded :: "call list \<Rightarrow> event list" where
  "succeeded cs = map (\<lambda>c. (c, True)) cs"

fun cleanupCall :: "call \<Rightarrow> bool" where
  "cleanupCall (Close f) = True"
| "cleanupCall (BodyClose u) = True"
| "cleanupCall (Remove f) = True"
| "cleanupCall c = False"

fun failStop :: "call list \<Rightarrow> event list \<Rightarrow> bool" where
  "failStop N [] = True"
| "failStop [] (ev # t) = list_all (\<lambda>x. cleanupCall (fst x)) (ev # t)"
| "failStop (c # N) ((d, ok) # t) =
     (if d = c then (if ok then failStop N t else list_all (\<lambda>x. cleanupCall (fst x)) t)
      else list_all (\<lambda>x. cleanupCall (fst x)) ((d, ok) # t))"

text \<open>
  The calls of each function when nothing fails, in order, and those of the whole
  cache-miss path of \<open>run\<close> after the existence check.
\<close>

definition artifactCalls :: "env \<Rightarrow> url \<Rightarrow> call list" where
  "artifactCalls e u =
     [NewRequest u, Do u, CreateTemp, CopyTo (tempName e), Close (tempName e), BodyClose u]"

definition dataCalls :: "url \<Rightarrow> call list" where
  "dataCalls u = [NewRequest u, Do u, ReadAll u, BodyClose u]"

definition hashCalls :: "path \<Rightarrow> call list" where
  "hashCalls f = [Open f, HashCopy f, Close f]"

definition copyCalls :: "path \<Rightarrow> path \<Rightarrow> call list" where
  "copyCalls src dst =
     [MkdirAll (Dir dst), Open src, Create dst, CopyTo dst, Close dst, Close src]"

definition downloadCalls :: "env \<Rightarrow> string \<Rightarrow> path \<Rightarrow> call list" where
  "downloadCalls e v p =
     artifactCalls e (getFileURL v (bufFileName e))
     @ dataCalls (getFileURL v ''sha256.txt'')
     @ dataCalls (getFileURL v ''sha256.txt.minisig'')
     @ Verify # GetSha256Hex
     # hashCalls (tempName e)
     @ copyCalls (tempName e) p
     @ [Chmod p, Remove (tempName e)]"

definition pipelineCalls :: "env \<Rightarrow> string \<Rightarrow> path \<Rightarrow> call list" where
  "pipelineCalls e v p = downloadCalls e v p @ [Fprintf, Run p (args e)]"

subsection \<open>Notions used in the statements\<close>

text \<open>
  A white-space string is a sequence of white-space runes. A plain byte is one of
  \<^verbatim>\<open>+ , - . /\<close> and the ten digits: the bytes from 43 to 57, among them every byte
  of an accepted version.
\<close>

definition whiteSpace :: "string \<Rightarrow> bool" where
  "whiteSpace s = (\<exists>rs. set rs \<subseteq> set spaceRunes \<and> s = concat rs)"

definition plainByte :: "char \<Rightarrow> bool" where
  "plainByte c = (43 \<le> (of_char c :: nat) \<and> (of_char c :: nat) \<le> 57)"

subsection \<open>Example environments\<close>

text \<open>
  \<open>env0\<close>: version \<^verbatim>\<open>1.28.1\<close> is published for Linux on x86_64, every call succeeds,
  the signature carries the trusted key's identifier and verifies. No version is
  configured; the variants below configure one in different ways.
\<close>

definition env0 :: env where
  "env0 =
     \<lparr>getenv = (\<lambda>k. if k = ''HOME'' then ''/home/u'' else []),
      getwd = Inr ''/w/p/q'',
      readFile = (\<lambda>p. Inl (OSError ''no such file or directory'')),
      args = [''lint''],
      unameS = ''Linux'',
      unameM = ''x86_64'',
      http = (\<lambda>u.
        if u = getFileURL ''1.28.1'' ''buf-Linux-x86_64''
        then \<lparr>StatusCode = 200, Body = ''ELF''\<rparr>
        else if u = getFileURL ''1.28.1'' ''sha256.txt''
        then \<lparr>StatusCode = 200,
              Body = ''0a  buf-Darwin-arm64'' @ [CHR 0x0A] @ ''0b  buf-Linux-x86_64'' @ [CHR 0x0A]\<rparr>
        else if u = getFileURL ''1.28.1'' ''sha256.txt.minisig''
        then \<lparr>StatusCode = 200, Body = ''sig''\<rparr>
        else \<lparr>StatusCode = 404, Body = []\<rparr>),
      tempName = ''/tmp/bufisk42'',
      faults = (\<lambda>n. None),
      shortWrite = (\<lambda>n. 0),
      publicKeyUnmarshalText = (\<lambda>s. Inr \<lparr>ID = 1, keyBytes = s\<rparr>),
      signatureUnmarshalText = (\<lambda>b. Inr \<lparr>KeyID = 1, signatureBytes = b\<rparr>),
      signatureMarshalText = (\<lambda>s. Inr (signatureBytes s)),
      minisignVerify = (\<lambda>k d s. True),
      hexSha256 = (\<lambda>b. if b = ''ELF'' then ''0b'' else ''00'')\<rparr>"

definition envOverride :: env where
  "envOverride = env0\<lparr>getenv := (\<lambda>k. if k = ''BUF_VERSION'' then '' 1.28.1'' @ [CHR 0x0A] else [])\<rparr>"

definition envFile :: env where
  "envFile = env0\<lparr>readFile := (\<lambda>p. if p = ''/w/p/q/.bufversion''
                                    then Inr ('' 1.28.1'' @ [CHR 0x0A])
                                    else Inl (OSError ''no such file or directory''))\<rparr>"

definition envAncestors :: env where
  "envAncestors = env0\<lparr>readFile := (\<lambda>p.
       if p = ''/w/p/q/.bufversion'' then Inl (OSError ''permission denied'')
       else if p = ''/w/p/.bufversion'' then Inl (OSError ''no such file or directory'')
       else if p = ''/w/.bufversion'' then Inr (''1.x'' @ [CHR 0x0A])
       else if p = ''/.bufversion'' then Inr ''1.28.1''
       else Inl (OSError ''no such file or directory''))\<rparr>"

text \<open>
  \<open>envRun\<close>: version \<^verbatim>\<open>1.28.1\<close> is requested through the override and everything
  succeeds. Its variants: the artifact hashes to something else (\<open>envBadHash\<close>), the
  signature names another key (\<open>envOtherKey\<close>), the first call of the run fails
  (\<open>envStatDenied\<close>), the fourth call fails after a short write (\<open>envBodyCut\<close>,
  \<open>envDiskFull\<close>). \<open>bufPath0\<close> is the cache path of the binary in these environments;
  the worlds are an empty file system, one with a file at the cache path, and one with
  the downloaded temporary file.
\<close>

definition envRun :: env where
  "envRun = env0\<lparr>getenv := (\<lambda>k. if k = ''BUF_VERSION'' then ''1.28.1''
                                else if k = ''HOME'' then ''/home/u'' else [])\<rparr>"

definition envBadHash :: env where
  "envBadHash = envRun\<lparr>hexSha256 := (\<lambda>b. ''ff'')\<rparr>"

definition envOtherKey :: env where
  "envOtherKey = envRun\<lparr>signatureUnmarshalText := (\<lambda>b. Inr \<lparr>KeyID = 2, signatureBytes = b\<rparr>)\<rparr>"

definition envStatDenied :: env where
  "envStatDenied = envRun\<lparr>faults := (\<lambda>n. if n = 0 then Some (OSError ''permission denied'') else None)\<rparr>"

definition envBodyCut :: env where
  "envBodyCut = envRun\<lparr>faults := (\<lambda>n. if n = 3 then Some (OSError ''unexpected EOF'') else None),
                       shortWrite := (\<lambda>n. 2)\<rparr>"

definition envDiskFull :: env where
  "envDiskFull = envRun\<lparr>faults := (\<lambda>n. if n = 3 then Some (OSError ''no space left on device'')
                                        else None),
                        shortWrite := (\<lambda>n. 1)\<rparr>"

definition bufPath0 :: path where
  "bufPath0 = ''/home/u/.cache/bufisk/Linux/x86_64/releases/buf/1.28.1/bin/buf''"

definition world0 :: world where
  "world0 = \<lparr>files = Map.empty, trace = []\<rparr>"

definition worldCached :: world where
  "worldCached = \<lparr>files = [bufPath0 \<mapsto> ''OLD''], trace = []\<rparr>"

definition worldTemp :: world where
  "worldTemp = \<lparr>files = [''/tmp/bufisk42'' \<mapsto> ''ELF''], trace = []\<rparr>"

section \<open>Properties\<close>

subsection \<open>Version validation\<close>

lemma Split_from_no_sep:
  "c \<notin> set s \<Longrightarrow> Split_from [c] acc s = [rev acc @ s]"
  by (induction s arbitrary: acc) auto

lemma Split_from_at_sep:
  "c \<notin> set a \<Longrightarrow> Split_from [c] acc (a @ c # rest) = (rev acc @ a) # Split_from [c] [] rest"
  by (induction a arbitrary: acc) auto

lemma Split_from_join:
  "\<exists>x xs. Split_from [c] acc s = x # xs \<and> rev acc @ s = x @ concat (map (\<lambda>y. c # y) xs)"
proof (induction "[c]" acc s rule: Split_from.induct)
  case (1 acc)
  then show ?case by simp
next
  case (2 acc d ds)
  then show ?case by (cases "d = c") auto
qed

lemma Split_three:
  assumes "Split v [c] = [a, b, d]"
  shows "v = a @ c # b @ c # d"
  using Split_from_join [of c "[]" v] assms by (auto simp: Split_def)

lemma Split_three_intro:
  assumes "c \<notin> set a" "c \<notin> set b" "c \<notin> set d"
  shows "Split (a @ c # b @ c # d) [c] = [a, b, d]"
  using assms by (simp add: Split_def Split_from_at_sep Split_from_no_sep)

lemma Atoi_signed: "Atoi s \<noteq> None \<longleftrightarrow> signedComponent s"
  by (cases s) (auto simp: Atoi_def signedComponent_def unsignedComponent_def Let_def isDigit_def)

lemma digits_no_dot: "list_all isDigit s \<Longrightarrow> CHR ''.'' \<notin> set s"
  by (auto simp: list_all_iff isDigit_def)

lemma signed_no_dot: "signedComponent s \<Longrightarrow> CHR ''.'' \<notin> set s"
  by (auto simp: signedComponent_def unsignedComponent_def dest: digits_no_dot)

lemma unsigned_signed: "unsignedComponent s \<Longrightarrow> signedComponent s"
  by (simp add: signedComponent_def)

lemma validateBufVersion_accepts:
  assumes "signedComponent a" "signedComponent b" "signedComponent c"
  shows "validateBufVersion (a @ ''.'' @ b @ ''.'' @ c) source = Inr (a @ ''.'' @ b @ ''.'' @ c)"
proof -
  have "Split (a @ CHR ''.'' # b @ CHR ''.'' # c) ''.'' = [a, b, c]"
    using assms by (intro Split_three_intro signed_no_dot)
  moreover have "Atoi a \<noteq> None" "Atoi b \<noteq> None" "Atoi c \<noteq> None"
    using assms Atoi_signed by blast+
  ultimately show ?thesis
    by (simp add: validateBufVersion_def)
qed

lemma validateBufVersion_accepted_form:
  assumes "validateBufVersion v source = Inr r"
  shows "r = v \<and> (\<exists>a b c. v = a @ ''.'' @ b @ ''.'' @ c
            \<and> signedComponent a \<and> signedComponent b \<and> signedComponent c)"
proof -
  from assms have len: "length (Split v ''.'') = 3"
    and ok: "\<not> list_ex (\<lambda>s. Atoi s = None) (Split v ''.'')" and r: "r = v"
    by (auto simp: validateBufVersion_def Let_def split: if_splits)
  from len obtain a b c where abc: "Split v ''.'' = [a, b, c]"
    by (auto simp: length_Suc_conv numeral_3_eq_3)
  from ok abc have "signedComponent a" "signedComponent b" "signedComponent c"
    by (simp_all add: Atoi_signed [symmetric])
  moreover from abc have "v = a @ ''.'' @ b @ ''.'' @ c"
    using Split_three [of v "CHR ''.''" a b c] by simp
  ultimately show ?thesis using r by blast
qed

lemma validateBufVersion_error:
  "validateBufVersion v source = Inl err \<Longrightarrow> err = InvalidBufVersion v source"
  by (auto simp: validateBufVersion_def newInvalidBufVersionError_def Let_def split: if_splits)

text \<open>
  Claim C4, as the code has it. A version of three dot-separated components, each a
  non-empty run of decimal digits whose value fits the Go \<^verbatim>\<open>int\<close>, is accepted and
  returned unchanged. A string that is not three dot-separated components, each an
  optional sign followed by decimal digits in the range of \<^verbatim>\<open>int\<close>, is rejected with the
  invalid-version error that names the version and its source. (Wrong component
  counts, empty or non-numeric components and a leading \<^verbatim>\<open>v\<close> are all of the second
  kind.)
\<close>

theorem validateBufVersion_decides:
  "(unsignedComponent a \<and> unsignedComponent b \<and> unsignedComponent c \<longrightarrow>
      validateBufVersion (a @ ''.'' @ b @ ''.'' @ c) source = Inr (a @ ''.'' @ b @ ''.'' @ c))
   \<and> ((\<nexists>x y z. v = x @ ''.'' @ y @ ''.'' @ z
          \<and> signedComponent x \<and> signedComponent y \<and> signedComponent z) \<longrightarrow>
      validateBufVersion v source = Inl (InvalidBufVersion v source))"
proof (intro conjI impI)
  assume "unsignedComponent a \<and> unsignedComponent b \<and> unsignedComponent c"
  then show "validateBufVersion (a @ ''.'' @ b @ ''.'' @ c) source = Inr (a @ ''.'' @ b @ ''.'' @ c)"
    by (intro validateBufVersion_accepts unsigned_signed) simp_all
next
  assume none: "\<nexists>x y z. v = x @ ''.'' @ y @ ''.'' @ z
          \<and> signedComponent x \<and> signedComponent y \<and> signedComponent z"
  show "validateBufVersion v source = Inl (InvalidBufVersion v source)"
  proof (cases "validateBufVersion v source")
    case (Inl err)
    then show ?thesis using validateBufVersion_error by simp
  next
    case (Inr r)
    then show ?thesis using validateBufVersion_accepted_form [OF Inr] none by blast
  qed
qed

lemma not_three_components:
  "length (Split v ''.'') \<noteq> 3 \<Longrightarrow>
     \<nexists>x y z. v = x @ ''.'' @ y @ ''.'' @ z \<and> signedComponent x \<and> signedComponent y \<and> signedComponent z"
  using Split_three_intro [of "CHR ''.''"] signed_no_dot by fastforce

text \<open>
  The theorem at \<^verbatim>\<open>1.28.1\<close> from the environment variable and at \<^verbatim>\<open>v1.28\<close> from a file.
\<close>

theorem validateBufVersion_decides_witness:
  "validateBufVersion ''1.28.1'' ''BUF_VERSION'' = Inr ''1.28.1''
   \<and> validateBufVersion ''v1.28'' ''/w/.bufversion'' = Inl (InvalidBufVersion ''v1.28'' ''/w/.bufversion'')"
proof -
  have u: "unsignedComponent ''1'' \<and> unsignedComponent ''28'' \<and> unsignedComponent ''1''"
    by (simp add: unsignedComponent_def isDigit_def digitsValue_def intSize_def)
  have n: "\<nexists>x y z. ''v1.28'' = x @ ''.'' @ y @ ''.'' @ z
          \<and> signedComponent x \<and> signedComponent y \<and> signedComponent z"
    by (rule not_three_components) (simp add: Split_def)
  have "validateBufVersion (''1'' @ ''.'' @ ''28'' @ ''.'' @ ''1'') ''BUF_VERSION''
          = Inr (''1'' @ ''.'' @ ''28'' @ ''.'' @ ''1'')"
    using validateBufVersion_decides [THEN conjunct1, THEN mp, OF u] .
  moreover have "validateBufVersion ''v1.28'' ''/w/.bufversion''
          = Inl (InvalidBufVersion ''v1.28'' ''/w/.bufversion'')"
    using validateBufVersion_decides [THEN conjunct2, THEN mp, OF n] .
  ultimately show ?thesis by simp
qed

text \<open>
  Claim C4 as stated fails: \<^verbatim>\<open>strconv.Atoi\<close> takes a sign, so a version with a negative
  component is accepted; and a component of digits beyond the range of \<^verbatim>\<open>int\<close> is
  rejected.
\<close>

theorem validateBufVersion_negative_counterexample:
  "validateBufVersion ''-1.2.3'' ''BUF_VERSION'' = Inr ''-1.2.3''
   \<and> validateBufVersion ''9223372036854775808.0.0'' ''BUF_VERSION''
       = Inl (InvalidBufVersion ''9223372036854775808.0.0'' ''BUF_VERSION'')"
  by (simp add: validateBufVersion_def newInvalidBufVersionError_def Split_def Atoi_def
      isDigit_def digitsValue_def intSize_def)

subsection \<open>White space\<close>

lemma spaceRunes_widths:
  "list_all (\<lambda>r. runeWidth spaceRunes (r @ y) = length r) spaceRunes"
  by (simp add: spaceRunes_def runeWidth_def)

lemma spaceRunes_rev_widths:
  "list_all (\<lambda>r. runeWidth (map rev spaceRunes) (rev r @ y) = length r) spaceRunes"
  by (simp add: spaceRunes_def runeWidth_def)

lemma spaceRunes_bytes:
  "list_all (\<lambda>r. r \<noteq> [] \<and> list_all (\<lambda>c. \<not> plainByte c) r) spaceRunes"
  by (simp add: spaceRunes_def plainByte_def)

lemma runeWidth_spaceRunes:
  "r \<in> set spaceRunes \<Longrightarrow> runeWidth spaceRunes (r @ y) = length r"
  using spaceRunes_widths [of y] by (simp add: list_all_iff)

lemma runeWidth_rev_spaceRunes:
  "r \<in> set spaceRunes \<Longrightarrow> runeWidth (map rev spaceRunes) (rev r @ y) = length r"
  using spaceRunes_rev_widths [of y] by (simp add: list_all_iff)

lemma spaceRunes_nonempty: "r \<in> set spaceRunes \<Longrightarrow> r \<noteq> []"
  using spaceRunes_bytes by (simp add: list_all_iff)

lemma spaceRunes_not_plain: "r \<in> set spaceRunes \<Longrightarrow> c \<in> set r \<Longrightarrow> \<not> plainByte c"
  using spaceRunes_bytes by (simp add: list_all_iff)

lemma trimRunes_rune:
  assumes "runeWidth R (r @ y) = length r" "r \<noteq> []"
  shows "trimRunes R (r @ y) = trimRunes R y"
proof -
  from assms(2) obtain c cs where r: "r = c # cs" by (cases r) auto
  with assms(1) show ?thesis by simp
qed

lemma trimRunes_spaces:
  "set rs \<subseteq> set spaceRunes \<Longrightarrow> trimRunes spaceRunes (concat rs @ x) = trimRunes spaceRunes x"
  by (induction rs) (simp_all add: trimRunes_rune runeWidth_spaceRunes spaceRunes_nonempty)

lemma trimRunes_rev_spaces:
  "set rs \<subseteq> set spaceRunes \<Longrightarrow>
     trimRunes (map rev spaceRunes) (concat (map rev rs) @ x) = trimRunes (map rev spaceRunes) x"
  by (induction rs) (simp_all add: trimRunes_rune runeWidth_rev_spaceRunes spaceRunes_nonempty)

lemma runeWidth_plain:
  assumes "plainByte c" "\<forall>r\<in>set R. r \<noteq> [] \<and> \<not> plainByte (hd r)"
  shows "runeWidth R (c # cs) = 0"
proof -
  have "\<not> (\<exists>r. r \<in> set R \<and> prefix r (c # cs))"
  proof
    assume "\<exists>r. r \<in> set R \<and> prefix r (c # cs)"
    then obtain r where r: "r \<in> set R" "prefix r (c # cs)" by blast
    with assms(2) obtain d ds where "r = d # ds" "\<not> plainByte d" by (cases r) auto
    with r(2) assms(1) show False by simp
  qed
  then have "find (\<lambda>r. prefix r (c # cs)) R = None"
    by (simp only: find_None_iff not_False_eq_True)
  then show ?thesis by (simp add: runeWidth_def)
qed

lemma trimRunes_plain:
  "plainByte c \<Longrightarrow> trimRunes spaceRunes (c # cs) = c # cs"
  using runeWidth_plain [of c spaceRunes cs] spaceRunes_not_plain spaceRunes_nonempty
  by (simp add: hd_in_set)

lemma trimRunes_rev_plain:
  assumes "plainByte c"
  shows "trimRunes (map rev spaceRunes) (c # cs) = c # cs"
proof -
  have "\<forall>r\<in>set (map rev spaceRunes). r \<noteq> [] \<and> \<not> plainByte (hd r)"
    using spaceRunes_not_plain spaceRunes_nonempty by (auto simp: hd_rev)
  from runeWidth_plain [OF assms this] show ?thesis by simp
qed

lemma TrimSpace_surrounded:
  assumes "whiteSpace l" "whiteSpace r" "v \<noteq> []" "plainByte (hd v)" "plainByte (last v)"
  shows "TrimSpace (l @ v @ r) = v"
proof -
  from assms(1) obtain ls where ls: "set ls \<subseteq> set spaceRunes" "l = concat ls"
    by (auto simp: whiteSpace_def)
  from assms(2) obtain rs where rs: "set rs \<subseteq> set spaceRunes" "r = concat rs"
    by (auto simp: whiteSpace_def)
  from assms(3) obtain c cs where v: "v = c # cs" by (cases v) auto
  from assms(3) obtain d ds where rv: "rev v = d # ds" by (cases "rev v") auto
  have d: "d = last v" using rv assms(3) by (metis last_rev list.sel(1) rev_rev_ident rev_is_Nil_conv hd_rev)
  have "trimRunes spaceRunes (l @ v @ r) = v @ r"
    using ls v assms(4) by (simp add: trimRunes_spaces trimRunes_plain del: trimRunes.simps)
  moreover have "rev (v @ r) = concat (map rev (rev rs)) @ rev v"
    using rs by (simp add: rev_concat rev_map)
  moreover have "trimRunes (map rev spaceRunes) (rev v) = rev v"
    unfolding rv using d assms(5) by (simp only: trimRunes_rev_plain)
  moreover have "trimRunes (map rev spaceRunes) (concat (map rev (rev rs)) @ rev v)
      = trimRunes (map rev spaceRunes) (rev v)"
    using rs(1) by (intro trimRunes_rev_spaces) simp
  ultimately show ?thesis by (simp add: TrimSpace_def)
qed

subsection \<open>Version resolution\<close>

lemma signed_plain:
  assumes "signedComponent s"
  shows "s \<noteq> [] \<and> (\<forall>c\<in>set s. plainByte c)"
proof -
  have d: "list_all isDigit ds \<Longrightarrow> \<forall>c\<in>set ds. plainByte c" for ds
    by (fastforce simp: plainByte_def isDigit_def list_all_iff)
  have "plainByte CHR ''+''" "plainByte CHR ''-''" by (simp_all add: plainByte_def)
  with assms d show ?thesis
    by (auto simp: signedComponent_def unsignedComponent_def)
qed

lemma accepted_plain:
  assumes "validateBufVersion v source = Inr r"
  shows "v \<noteq> [] \<and> (\<forall>c\<in>set v. plainByte c)"
proof -
  from validateBufVersion_accepted_form [OF assms] obtain a b c where
    v: "v = a @ ''.'' @ b @ ''.'' @ c" and s: "signedComponent a" "signedComponent b" "signedComponent c"
    by blast
  have "plainByte CHR ''.''" by (simp add: plainByte_def)
  with v s show ?thesis using signed_plain by auto
qed

lemma accepted_any_source:
  assumes "validateBufVersion v source = Inr r"
  shows "validateBufVersion v source' = Inr v"
  using validateBufVersion_accepted_form [OF assms] validateBufVersion_accepts by blast

lemma whiteSpace_not_plain:
  assumes "whiteSpace s" "c \<in> set s"
  shows "\<not> plainByte c"
proof -
  from assms obtain rs x where "set rs \<subseteq> set spaceRunes" "x \<in> set rs" "c \<in> set x"
    by (auto simp: whiteSpace_def)
  then show ?thesis using spaceRunes_not_plain [of x c] by blast
qed

lemma getBufVersion_loop_reads:
  assumes "\<forall>j<k. isl (readFile e (Join [(Dir ^^ j) pwd, bufVersionFileName]))
                 \<and> (Dir ^^ j) pwd \<noteq> PathSeparator"
    and "readFile e (Join [(Dir ^^ k) pwd, bufVersionFileName]) = Inr data"
  shows "getBufVersion_loop e pwd
           = Some (validateBufVersion (TrimSpace data) (Join [(Dir ^^ k) pwd, bufVersionFileName]))"
  using assms
proof (induction k arbitrary: pwd)
  case 0
  then show ?case by (subst getBufVersion_loop.simps) simp
next
  case (Suc k)
  from Suc.prems(1) have here: "isl (readFile e (Join [pwd, bufVersionFileName]))" "pwd \<noteq> PathSeparator"
    by force+
  have "\<forall>j<k. isl (readFile e (Join [(Dir ^^ j) (Dir pwd), bufVersionFileName]))
                 \<and> (Dir ^^ j) (Dir pwd) \<noteq> PathSeparator"
  proof (intro allI impI)
    fix j assume "j < k"
    then have "Suc j < Suc k" by simp
    with Suc.prems(1) show "isl (readFile e (Join [(Dir ^^ j) (Dir pwd), bufVersionFileName]))
                 \<and> (Dir ^^ j) (Dir pwd) \<noteq> PathSeparator"
      by (metis funpow_Suc_right o_apply)
  qed
  moreover have "readFile e (Join [(Dir ^^ k) (Dir pwd), bufVersionFileName]) = Inr data"
    using Suc.prems(2) by (simp add: funpow_swap1)
  ultimately have "getBufVersion_loop e (Dir pwd)
           = Some (validateBufVersion (TrimSpace data) (Join [(Dir ^^ k) (Dir pwd), bufVersionFileName]))"
    by (rule Suc.IH)
  moreover have "getBufVersion_loop e pwd = getBufVersion_loop e (Dir pwd)"
    using here by (subst getBufVersion_loop.simps) (auto simp: isl_def)
  ultimately show ?case by (simp add: funpow_swap1)
qed

text \<open>
  Claim C8. With no override, let the version file be unreadable in the working
  directory and its first \<open>k - 1\<close> ancestors (whatever the error: absent, permission
  denied, anything else), none of them the root, and readable in the \<open>k\<close>-th. Then
  the resolver returns the validation of that file's trimmed content, whatever lies
  further up; so if that content is malformed the result is the invalid-version error
  for this file.
\<close>

theorem getBufVersion_first_readable_file:
  assumes "getenv e useBufVersionEnvKey = []" and "getwd e = Inr pwd"
    and "\<forall>j<k. isl (readFile e (Join [(Dir ^^ j) pwd, bufVersionFileName]))
                 \<and> (Dir ^^ j) pwd \<noteq> PathSeparator"
    and "readFile e (Join [(Dir ^^ k) pwd, bufVersionFileName]) = Inr data"
  shows "getBufVersion e
           = Some (validateBufVersion (TrimSpace data) (Join [(Dir ^^ k) pwd, bufVersionFileName]))
       \<and> (isl (validateBufVersion (TrimSpace data) (Join [(Dir ^^ k) pwd, bufVersionFileName])) \<longrightarrow>
            getBufVersion e
              = Some (Inl (InvalidBufVersion (TrimSpace data) (Join [(Dir ^^ k) pwd, bufVersionFileName]))))"
proof -
  have g: "getBufVersion e = getBufVersion_loop e pwd"
    using assms(1,2) by (simp add: getBufVersion_def)
  have l: "getBufVersion_loop e pwd
           = Some (validateBufVersion (TrimSpace data) (Join [(Dir ^^ k) pwd, bufVersionFileName]))"
    using assms(3,4) by (rule getBufVersion_loop_reads)
  show ?thesis
    using g l validateBufVersion_error by (auto simp: isl_def)
qed

text \<open>
  In \<open>envAncestors\<close> the working directory \<^verbatim>\<open>/w/p/q\<close> denies the read, \<^verbatim>\<open>/w/p\<close> has no
  version file, \<^verbatim>\<open>/w\<close> has a malformed one and the root a well-formed one.
\<close>

theorem getBufVersion_first_readable_file_witness:
  "getBufVersion envAncestors = Some (Inl (InvalidBufVersion ''1.x'' ''/w/.bufversion''))"
proof -
  have a: "getenv envAncestors useBufVersionEnvKey = []" "getwd envAncestors = Inr ''/w/p/q''"
    by (simp_all add: envAncestors_def env0_def useBufVersionEnvKey_def)
  have d: "(Dir ^^ 0) ''/w/p/q'' = ''/w/p/q''" "(Dir ^^ 1) ''/w/p/q'' = ''/w/p''"
    "(Dir ^^ 2) ''/w/p/q'' = ''/w''"
    by (simp_all add: numeral_2_eq_2 Dir_def Clean_def Split_def)
  have "\<forall>j<2. isl (readFile envAncestors (Join [(Dir ^^ j) ''/w/p/q'', bufVersionFileName]))
                 \<and> (Dir ^^ j) ''/w/p/q'' \<noteq> PathSeparator"
    using d by (simp add: less_2_cases_iff envAncestors_def env0_def bufVersionFileName_def
        Join_def Clean_def Split_def PathSeparator_def)
  moreover have "readFile envAncestors (Join [(Dir ^^ 2) ''/w/p/q'', bufVersionFileName])
      = Inr (''1.x'' @ [CHR 0x0A])"
    using d by (simp add: envAncestors_def env0_def bufVersionFileName_def
        Join_def Clean_def Split_def)
  ultimately have "getBufVersion envAncestors
           = Some (validateBufVersion (TrimSpace (''1.x'' @ [CHR 0x0A]))
                (Join [(Dir ^^ 2) ''/w/p/q'', bufVersionFileName]))"
    using getBufVersion_first_readable_file [OF a, of 2 "''1.x'' @ [CHR 0x0A]"] by blast
  moreover have "TrimSpace (''1.x'' @ [CHR 0x0A]) = ''1.x''"
    by (simp add: TrimSpace_def runeWidth_def spaceRunes_def)
  moreover have "Join [(Dir ^^ 2) ''/w/p/q'', bufVersionFileName] = ''/w/.bufversion''"
    using d by (simp add: bufVersionFileName_def Join_def Clean_def Split_def)
  moreover have "validateBufVersion ''1.x'' ''/w/.bufversion''
      = Inl (InvalidBufVersion ''1.x'' ''/w/.bufversion'')"
    by (simp add: validateBufVersion_def newInvalidBufVersionError_def Split_def Atoi_def isDigit_def)
  ultimately show ?thesis by simp
qed

lemma not_plain_rejected:
  assumes "c \<in> set v" "\<not> plainByte c"
  shows "validateBufVersion v source = Inl (InvalidBufVersion v source)"
proof (cases "validateBufVersion v source")
  case (Inl err)
  then show ?thesis using validateBufVersion_error by simp
next
  case (Inr r)
  then show ?thesis using accepted_plain [OF Inr] assms by blast
qed

lemma accepted_ends:
  assumes "validateBufVersion v source = Inr r"
  shows "v \<noteq> [] \<and> plainByte (hd v) \<and> plainByte (last v)"
  using accepted_plain [OF assms] by (simp add: hd_in_set)

text \<open>
  Claim C10. Let \<open>v\<close> be a version that validation accepts, and \<open>l\<close>, \<open>r\<close> white space,
  not both empty. As the value of the override variable, \<open>l @ v @ r\<close> is validated as
  it is and rejected with the invalid-version error naming the variable; as the content
  of the version file in the working directory it is trimmed first, and \<open>v\<close> is
  returned.
\<close>

theorem override_verbatim_file_trimmed:
  assumes "validateBufVersion v useBufVersionEnvKey = Inr v"
    and "whiteSpace l" and "whiteSpace r" and "l @ r \<noteq> []"
  shows "(getenv e useBufVersionEnvKey = l @ v @ r \<longrightarrow>
            getBufVersion e = Some (Inl (InvalidBufVersion (l @ v @ r) useBufVersionEnvKey)))
       \<and> (getenv e useBufVersionEnvKey = [] \<and> getwd e = Inr pwd
            \<and> readFile e (Join [pwd, bufVersionFileName]) = Inr (l @ v @ r) \<longrightarrow>
            getBufVersion e = Some (Inr v))"
proof (intro conjI impI)
  assume env: "getenv e useBufVersionEnvKey = l @ v @ r"
  from assms(4) obtain c where c: "c \<in> set (l @ r)" by (cases "l @ r") auto
  with assms(2,3) have "\<not> plainByte c" using whiteSpace_not_plain by auto
  moreover from c have "c \<in> set (l @ v @ r)" by auto
  ultimately have "validateBufVersion (l @ v @ r) useBufVersionEnvKey
      = Inl (InvalidBufVersion (l @ v @ r) useBufVersionEnvKey)"
    by (rule not_plain_rejected [rotated])
  moreover from accepted_ends [OF assms(1)] have "l @ v @ r \<noteq> []" by simp
  ultimately show "getBufVersion e = Some (Inl (InvalidBufVersion (l @ v @ r) useBufVersionEnvKey))"
    using env by (simp add: getBufVersion_def)
next
  assume inFile: "getenv e useBufVersionEnvKey = [] \<and> getwd e = Inr pwd
            \<and> readFile e (Join [pwd, bufVersionFileName]) = Inr (l @ v @ r)"
  from accepted_ends [OF assms(1)] have "TrimSpace (l @ v @ r) = v"
    using assms(2,3) by (intro TrimSpace_surrounded) simp_all
  moreover have "getBufVersion_loop e pwd
      = Some (validateBufVersion (TrimSpace (l @ v @ r)) (Join [pwd, bufVersionFileName]))"
    using inFile by (subst getBufVersion_loop.simps) simp
  moreover have "validateBufVersion v (Join [pwd, bufVersionFileName]) = Inr v"
    using assms(1) by (rule accepted_any_source)
  ultimately show "getBufVersion e = Some (Inr v)"
    using inFile by (simp add: getBufVersion_def)
qed

text \<open>
  The bytes \<^verbatim>\<open>" 1.28.1\n"\<close> as the override (\<open>envOverride\<close>) and as the file (\<open>envFile\<close>).
\<close>

theorem override_verbatim_file_trimmed_witness:
  "getBufVersion envOverride
     = Some (Inl (InvalidBufVersion ('' 1.28.1'' @ [CHR 0x0A]) ''BUF_VERSION''))
   \<and> getBufVersion envFile = Some (Inr ''1.28.1'')"
proof -
  have v: "validateBufVersion ''1.28.1'' useBufVersionEnvKey = Inr ''1.28.1''"
    by (simp add: validateBufVersion_def Split_def Atoi_def isDigit_def digitsValue_def intSize_def)
  have "set [[CHR 0x20]] \<subseteq> set spaceRunes \<and> '' '' = concat [[CHR 0x20]]"
    by (simp add: spaceRunes_def)
  then have l: "whiteSpace '' ''" unfolding whiteSpace_def by blast
  have "set [[CHR 0x0A]] \<subseteq> set spaceRunes \<and> [CHR 0x0A] = concat [[CHR 0x0A]]"
    by (simp add: spaceRunes_def)
  then have r: "whiteSpace [CHR 0x0A]" unfolding whiteSpace_def by blast
  have n: "'' '' @ [CHR 0x0A] \<noteq> []" by simp
  have "getenv envOverride useBufVersionEnvKey = '' '' @ ''1.28.1'' @ [CHR 0x0A]"
    by (simp add: envOverride_def env0_def useBufVersionEnvKey_def)
  then have a: "getBufVersion envOverride
      = Some (Inl (InvalidBufVersion ('' '' @ ''1.28.1'' @ [CHR 0x0A]) useBufVersionEnvKey))"
    using override_verbatim_file_trimmed [OF v l r n, of envOverride] by blast
  have "getenv envFile useBufVersionEnvKey = [] \<and> getwd envFile = Inr ''/w/p/q''
      \<and> readFile envFile (Join [''/w/p/q'', bufVersionFileName]) = Inr ('' '' @ ''1.28.1'' @ [CHR 0x0A])"
    by (simp add: envFile_def env0_def useBufVersionEnvKey_def bufVersionFileName_def
        Join_def Clean_def Split_def)
  then have b: "getBufVersion envFile = Some (Inr ''1.28.1'')"
    using override_verbatim_file_trimmed [OF v l r n, of envFile "''/w/p/q''"] by blast
  from a b show ?thesis by (simp add: useBufVersionEnvKey_def)
qed

subsection \<open>Effects of the functions on files and trace\<close>

lemmas prims = sys_def sysOn_def logCall_def osCreateTemp_def osCreate_def osRemove_def ioCopy_def

lemma downloadData_effect:
  assumes "downloadData e u w = (r, w1)"
  shows "files w1 = files w
    \<and> (\<exists>t. trace w1 = trace w @ t \<and> failStop (dataCalls u) t
          \<and> (\<forall>x. r = Inr x \<longrightarrow> x = Body (http e u) \<and> t = succeeded (dataCalls u)))"
  using assms unfolding downloadData_def download_def succeeded_def dataCalls_def
  by (auto simp: prims Let_def split: prod.splits sum.splits option.splits if_splits)

lemma downloadTempFile_effect:
  assumes "downloadTempFile e u w = (r, w1)"
  shows "(\<forall>q. q \<noteq> tempName e \<longrightarrow> files w1 q = files w q)
    \<and> (\<exists>t. trace w1 = trace w @ t \<and> failStop (artifactCalls e u) t
          \<and> (\<forall>x. r = Inr x \<longrightarrow> x = tempName e
                \<and> files w1 (tempName e) = Some (Body (http e u))
                \<and> t = succeeded (artifactCalls e u)))"
  using assms unfolding downloadTempFile_def download_def succeeded_def artifactCalls_def
  by (auto simp: prims Let_def split: prod.splits sum.splits option.splits if_splits)

lemma verifySha256TxtData_effect:
  assumes "verifySha256TxtData e mtxt stxt w = (r, w1)"
  shows "files w1 = files w
    \<and> (\<exists>t. trace w1 = trace w @ t \<and> failStop [Verify] t
          \<and> (r = None \<longrightarrow> t = succeeded [Verify]))"
  using assms unfolding verifySha256TxtData_def succeeded_def
  by (auto simp: prims Let_def split: prod.splits sum.splits option.splits if_splits)

lemma hashFile_effect:
  assumes "hashFile e f w = (r, w1)"
  shows "files w1 = files w
    \<and> (\<exists>t. trace w1 = trace w @ t \<and> failStop (hashCalls f) t
          \<and> (\<forall>h. r = Inr h \<longrightarrow> h = hexSha256 e (contents w f)
                \<and> t = succeeded (hashCalls f)))"
  using assms unfolding hashFile_def succeeded_def hashCalls_def
  by (auto simp: prims contents_def Let_def split: prod.splits sum.splits option.splits if_splits)

lemma copyFile_effect:
  assumes "copyFile e src dst w = (r, w1)"
  shows "(\<forall>q. q \<noteq> dst \<longrightarrow> files w1 q = files w q)
    \<and> (\<exists>t. trace w1 = trace w @ t \<and> failStop (copyCalls src dst) t
          \<and> (r = None \<longrightarrow> (src \<noteq> dst \<longrightarrow> files w1 dst = Some (contents w src))
                \<and> t = succeeded (copyCalls src dst)))"
  using assms unfolding copyFile_def succeeded_def copyCalls_def
  by (auto simp: prims contents_def Let_def split: prod.splits sum.splits option.splits if_splits)

lemma osRemove_effect:
  assumes "osRemove e f w = (r, w1)"
  shows "(\<forall>q. q \<noteq> f \<longrightarrow> files w1 q = files w q) \<and> trace w1 = trace w @ [(Remove f, r = None)]"
  using assms
  by (auto simp: prims Let_def split: prod.splits sum.splits option.splits if_splits)

lemma sysOn_effect:
  assumes "sysOn e c f w = (r, w1)"
  shows "files w1 = files w \<and> trace w1 = trace w @ [(c, r = None)]"
  using assms
  by (auto simp: prims Let_def split: prod.splits sum.splits option.splits if_splits)

lemma sys_effect:
  assumes "sys e c w = (r, w1)"
  shows "files w1 = files w \<and> trace w1 = trace w @ [(c, r = None)]"
  using assms
  by (auto simp: prims Let_def split: prod.splits sum.splits option.splits if_splits)

lemma downloadBufToFilePath_cases:
  assumes "downloadBufToFilePath e v p w = (r, w')"
  obtains
    (artifact) err where
      "downloadTempFile e (getFileURL v (bufFileName e)) w = (Inl err, w')"
      "r = Some (CouldNotDownloadBuf v err)"
  | (manifest) tmp w1 err w2 rr where
      "downloadTempFile e (getFileURL v (bufFileName e)) w = (Inr tmp, w1)"
      "downloadData e (getFileURL v ''sha256.txt'') w1 = (Inl err, w2)"
      "osRemove e tmp w2 = (rr, w')" "r = Some err"
  | (signature) tmp w1 mtxt w2 err w3 rr where
      "downloadTempFile e (getFileURL v (bufFileName e)) w = (Inr tmp, w1)"
      "downloadData e (getFileURL v ''sha256.txt'') w1 = (Inr mtxt, w2)"
      "downloadData e (getFileURL v ''sha256.txt.minisig'') w2 = (Inl err, w3)"
      "osRemove e tmp w3 = (rr, w')" "r = Some err"
  | (verify) tmp w1 mtxt w2 stxt w3 err w4 rr where
      "downloadTempFile e (getFileURL v (bufFileName e)) w = (Inr tmp, w1)"
      "downloadData e (getFileURL v ''sha256.txt'') w1 = (Inr mtxt, w2)"
      "downloadData e (getFileURL v ''sha256.txt.minisig'') w2 = (Inr stxt, w3)"
      "verifySha256TxtData e mtxt stxt w3 = (Some err, w4)"
      "osRemove e tmp w4 = (rr, w')" "r = Some err"
  | (lookup) tmp w1 mtxt w2 stxt w3 w4 err rr where
      "downloadTempFile e (getFileURL v (bufFileName e)) w = (Inr tmp, w1)"
      "downloadData e (getFileURL v ''sha256.txt'') w1 = (Inr mtxt, w2)"
      "downloadData e (getFileURL v ''sha256.txt.minisig'') w2 = (Inr stxt, w3)"
      "verifySha256TxtData e mtxt stxt w3 = (None, w4)"
      "getSha256HexForTxtData mtxt (bufFileName e) = Inl err"
      "osRemove e tmp (logCall GetSha256Hex False w4) = (rr, w')" "r = Some err"
  | (hash) tmp w1 mtxt w2 stxt w3 w4 expected err w5 rr where
      "downloadTempFile e (getFileURL v (bufFileName e)) w = (Inr tmp, w1)"
      "downloadData e (getFileURL v ''sha256.txt'') w1 = (Inr mtxt, w2)"
      "downloadData e (getFileURL v ''sha256.txt.minisig'') w2 = (Inr stxt, w3)"
      "verifySha256TxtData e mtxt stxt w3 = (None, w4)"
      "getSha256HexForTxtData mtxt (bufFileName e) = Inr expected"
      "hashFile e tmp (logCall GetSha256Hex True w4) = (Inl err, w5)"
      "osRemove e tmp w5 = (rr, w')" "r = Some (CouldNotHash tmp err)"
  | (mismatch) tmp w1 mtxt w2 stxt w3 w4 expected h w5 rr where
      "downloadTempFile e (getFileURL v (bufFileName e)) w = (Inr tmp, w1)"
      "downloadData e (getFileURL v ''sha256.txt'') w1 = (Inr mtxt, w2)"
      "downloadData e (getFileURL v ''sha256.txt.minisig'') w2 = (Inr stxt, w3)"
      "verifySha256TxtData e mtxt stxt w3 = (None, w4)"
      "getSha256HexForTxtData mtxt (bufFileName e) = Inr expected"
      "hashFile e tmp (logCall GetSha256Hex True w4) = (Inr h, w5)"
      "h \<noteq> expected"
      "osRemove e tmp w5 = (rr, w')" "r = Some (Sha256Mismatch (bufFileName e) h expected)"
  | (copy) tmp w1 mtxt w2 stxt w3 w4 expected h w5 err w6 rr where
      "downloadTempFile e (getFileURL v (bufFileName e)) w = (Inr tmp, w1)"
      "downloadData e (getFileURL v ''sha256.txt'') w1 = (Inr mtxt, w2)"
      "downloadData e (getFileURL v ''sha256.txt.minisig'') w2 = (Inr stxt, w3)"
      "verifySha256TxtData e mtxt stxt w3 = (None, w4)"
      "getSha256HexForTxtData mtxt (bufFileName e) = Inr expected"
      "hashFile e tmp (logCall GetSha256Hex True w4) = (Inr h, w5)"
      "h = expected"
      "copyFile e tmp p w5 = (Some err, w6)"
      "osRemove e tmp w6 = (rr, w')" "r = Some err"
  | (chmod) tmp w1 mtxt w2 stxt w3 w4 expected h w5 w6 cr w7 rr where
      "downloadTempFile e (getFileURL v (bufFileName e)) w = (Inr tmp, w1)"
      "downloadData e (getFileURL v ''sha256.txt'') w1 = (Inr mtxt, w2)"
      "downloadData e (getFileURL v ''sha256.txt.minisig'') w2 = (Inr stxt, w3)"
      "verifySha256TxtData e mtxt stxt w3 = (None, w4)"
      "getSha256HexForTxtData mtxt (bufFileName e) = Inr expected"
      "hashFile e tmp (logCall GetSha256Hex True w4) = (Inr h, w5)"
      "h = expected"
      "copyFile e tmp p w5 = (None, w6)"
      "sysOn e (Chmod p) p w6 = (cr, w7)"
      "osRemove e tmp w7 = (rr, w')"
      "r = (case cr of Some err \<Rightarrow> Some err
            | None \<Rightarrow> (case rr of Some err \<Rightarrow> Some (RemoveSourceFailed tmp err) | None \<Rightarrow> None))"
  using assms unfolding downloadBufToFilePath_def Let_def
  by (auto split: prod.splits sum.splits option.splits if_splits)

subsection \<open>Traces that stop at the first failure\<close>

lemma onlyAfter_Nil [simp]: "onlyAfter a b [] = True"
  by (simp add: onlyAfter_def)

lemma onlyAfter_Cons [simp]:
  "onlyAfter a b ((c, ok) # t) = ((c = a \<and> ok) \<or> (c \<noteq> b \<and> onlyAfter a b t))"
  by (auto simp: onlyAfter_def)

lemma succeeded_simps [simp]:
  "succeeded [] = []" "succeeded (c # cs) = (c, True) # succeeded cs"
  "succeeded (xs @ ys) = succeeded xs @ succeeded ys"
  by (simp_all add: succeeded_def)

lemma onlyAfter_cleanup:
  "list_all (\<lambda>x. cleanupCall (fst x)) t \<Longrightarrow> \<not> cleanupCall b \<Longrightarrow> onlyAfter a b t"
  by (induction t) auto

lemma failStop_cleanup:
  "list_all (\<lambda>x. cleanupCall (fst x)) t \<Longrightarrow> failStop N t"
proof (induction N t rule: failStop.induct)
  case (3 c N d ok t)
  then show ?case by (cases t) auto
qed simp_all

lemma failStop_succeeded [simp]:
  "failStop (N1 @ N2) (succeeded N1 @ t) = failStop N2 t"
  by (induction N1) simp_all

lemma failStop_succeeded_all [simp]: "failStop N (succeeded N)"
  using failStop_succeeded [of N "[]" "[]"] by simp

lemma failStop_then_cleanup:
  "failStop N1 t1 \<Longrightarrow> list_all (\<lambda>x. cleanupCall (fst x)) t2 \<Longrightarrow> failStop (N1 @ N2) (t1 @ t2)"
proof (induction N1 t1 rule: failStop.induct)
  case (1 N)
  then show ?case by (simp add: failStop_cleanup)
next
  case (2 ev t)
  then show ?case by (intro failStop_cleanup) simp
next
  case (3 c N d ok t)
  then show ?case by (auto intro: failStop_cleanup)
qed

lemma failStop_then_cleanup1:
  "failStop [c] t1 \<Longrightarrow> list_all (\<lambda>x. cleanupCall (fst x)) t2 \<Longrightarrow> failStop (c # N2) (t1 @ t2)"
  using failStop_then_cleanup [of "[c]" t1 t2 N2] by simp

lemma failStop_onlyAfter:
  "failStop N t \<Longrightarrow> \<not> cleanupCall b \<Longrightarrow> a \<noteq> b \<Longrightarrow> onlyAfter a b (succeeded N)
     \<Longrightarrow> onlyAfter a b t"
proof (induction N t rule: failStop.induct)
  case (1 N)
  then show ?case by simp
next
  case (2 ev t)
  then show ?case by (intro onlyAfter_cleanup) simp_all
next
  case (3 c N d ok t)
  then show ?case by (auto intro: onlyAfter_cleanup split: if_splits)
qed

lemma newTrace_append [simp]: "trace w' = trace w @ t \<Longrightarrow> newTrace w w' = t"
  by (simp add: newTrace_def)

lemma trace_logCall [simp]: "trace (logCall c ok w) = trace w @ [(c, ok)]"
  by (simp add: logCall_def)

lemma files_logCall [simp]: "files (logCall c ok w) = files w"
  by (simp add: logCall_def)

lemma downloadBufToFilePath_failStop:
  assumes "downloadBufToFilePath e v p w = (r, w')"
  shows "\<exists>t. trace w' = trace w @ t \<and> failStop (downloadCalls e v p) t
           \<and> (r = None \<longrightarrow> t = succeeded (downloadCalls e v p)
                \<and> (tempName e \<noteq> p \<longrightarrow>
                      files w' p = Some (Body (http e (getFileURL v (bufFileName e))))))"
  using assms
proof (cases rule: downloadBufToFilePath_cases)
  case (artifact err)
  from downloadTempFile_effect [OF artifact(1)] artifact(2) show ?thesis
    using failStop_then_cleanup [where ?t2.0 = "[]"] by (fastforce simp: downloadCalls_def)
next
  case (manifest tmp w1 err w2 rr)
  from downloadTempFile_effect [OF manifest(1)] downloadData_effect [OF manifest(2)]
    osRemove_effect [OF manifest(3)] manifest(4)
  show ?thesis
    by (auto simp: downloadCalls_def failStop_then_cleanup)
next
  case (signature tmp w1 mtxt w2 err w3 rr)
  from downloadTempFile_effect [OF signature(1)] downloadData_effect [OF signature(2)]
    downloadData_effect [OF signature(3)] osRemove_effect [OF signature(4)] signature(5)
  show ?thesis
    by (auto simp: downloadCalls_def failStop_then_cleanup)
next
  case (verify tmp w1 mtxt w2 stxt w3 err w4 rr)
  from downloadTempFile_effect [OF verify(1)] downloadData_effect [OF verify(2)]
    downloadData_effect [OF verify(3)] verifySha256TxtData_effect [OF verify(4)]
    osRemove_effect [OF verify(5)] verify(6)
  show ?thesis
    by (auto simp: downloadCalls_def failStop_then_cleanup1)
next
  case (lookup tmp w1 mtxt w2 stxt w3 w4 err rr)
  from downloadTempFile_effect [OF lookup(1)] downloadData_effect [OF lookup(2)]
    downloadData_effect [OF lookup(3)] verifySha256TxtData_effect [OF lookup(4)]
    osRemove_effect [OF lookup(6)] lookup(7)
  show ?thesis
    by (auto simp: downloadCalls_def)
next
  case (hash tmp w1 mtxt w2 stxt w3 w4 expected err w5 rr)
  from downloadTempFile_effect [OF hash(1)] downloadData_effect [OF hash(2)]
    downloadData_effect [OF hash(3)] verifySha256TxtData_effect [OF hash(4)]
    hashFile_effect [OF hash(6)] osRemove_effect [OF hash(7)] hash(8)
  show ?thesis
    by (auto simp: downloadCalls_def failStop_then_cleanup)
next
  case (mismatch tmp w1 mtxt w2 stxt w3 w4 expected h w5 rr)
  from downloadTempFile_effect [OF mismatch(1)] downloadData_effect [OF mismatch(2)]
    downloadData_effect [OF mismatch(3)] verifySha256TxtData_effect [OF mismatch(4)]
    hashFile_effect [OF mismatch(6)] osRemove_effect [OF mismatch(8)] mismatch(9)
  show ?thesis
    using failStop_cleanup by (auto simp: downloadCalls_def)
next
  case (copy tmp w1 mtxt w2 stxt w3 w4 expected h w5 err w6 rr)
  from downloadTempFile_effect [OF copy(1)] downloadData_effect [OF copy(2)]
    downloadData_effect [OF copy(3)] verifySha256TxtData_effect [OF copy(4)]
    hashFile_effect [OF copy(6)] copyFile_effect [OF copy(8)] osRemove_effect [OF copy(9)]
    copy(10)
  show ?thesis
    by (auto simp: downloadCalls_def failStop_then_cleanup)
next
  case (chmod tmp w1 mtxt w2 stxt w3 w4 expected h w5 w6 cr w7 rr)
  from downloadTempFile_effect [OF chmod(1)] downloadData_effect [OF chmod(2)]
    downloadData_effect [OF chmod(3)] verifySha256TxtData_effect [OF chmod(4)]
    hashFile_effect [OF chmod(6)] copyFile_effect [OF chmod(8)] sysOn_effect [OF chmod(9)]
    osRemove_effect [OF chmod(10)] chmod(11)
  show ?thesis
    by (auto simp: downloadCalls_def contents_def split: option.splits)
qed

subsection \<open>The run\<close>

lemma getFileURL_eq [simp]: "getFileURL v f = getFileURL v g \<longleftrightarrow> f = g"
  by (simp add: getFileURL_def)

lemma bufFileName_neq [simp]:
  "bufFileName e \<noteq> ''sha256.txt''" "bufFileName e \<noteq> ''sha256.txt.minisig''"
  by (simp_all add: bufFileName_def)

lemma run_cache_miss:
  assumes "getBufVersion e = Some (Inr v)" and "getCacheDirPath e = Inr c"
    and "sysOn e (Stat (getBufFilePath e c v)) (getBufFilePath e c v) w = (Some statErr, w1)"
  shows "\<exists>r w' t. run e w = Some (r, w')
       \<and> trace w1 = trace w @ [(Stat (getBufFilePath e c v), False)]
       \<and> trace w' = trace w1 @ t
       \<and> failStop (pipelineCalls e v (getBufFilePath e c v)) t
       \<and> (r = None \<longrightarrow> t = succeeded (pipelineCalls e v (getBufFilePath e c v))
            \<and> (tempName e \<noteq> getBufFilePath e c v \<longrightarrow>
                  files w' (getBufFilePath e c v)
                    = Some (Body (http e (getFileURL v (bufFileName e))))))"
proof -
  let ?p = "getBufFilePath e c v"
  obtain r2 w2 where db: "downloadBufToFilePath e v ?p w1 = (r2, w2)"
    by (cases "downloadBufToFilePath e v ?p w1")
  from downloadBufToFilePath_failStop [OF db] obtain t2 where
    t2: "trace w2 = trace w1 @ t2" "failStop (downloadCalls e v ?p) t2"
      "r2 = None \<longrightarrow> t2 = succeeded (downloadCalls e v ?p)
          \<and> (tempName e \<noteq> ?p \<longrightarrow> files w2 ?p = Some (Body (http e (getFileURL v (bufFileName e)))))"
    by blast
  from sysOn_effect [OF assms(3)] have st: "trace w1 = trace w @ [(Stat ?p, False)]" by simp
  show ?thesis
  proof (cases r2)
    case (Some err)
    then have "run e w = Some (Some err, w2)"
      using assms db by (simp add: run_def)
    moreover have "failStop (pipelineCalls e v ?p) t2"
      using failStop_then_cleanup [OF t2(2), of "[]"] by (simp add: pipelineCalls_def)
    ultimately show ?thesis using st t2(1) by auto
  next
    case None
    obtain r3 w3 where fp: "sys e Fprintf w2 = (r3, w3)" by (cases "sys e Fprintf w2")
    obtain r4 w4 where rn: "sysOn e (Run ?p (args e)) ?p w3 = (r4, w4)"
      by (cases "sysOn e (Run ?p (args e)) ?p w3")
    from None t2 have t2s: "t2 = succeeded (downloadCalls e v ?p)" by simp
    show ?thesis
    proof (cases r3)
      case (Some err)
      then have "run e w = Some (Some err, w3)"
        using assms db None fp by (simp add: run_def)
      moreover from sys_effect [OF fp] Some have "trace w3 = trace w1 @ t2 @ [(Fprintf, False)]"
        using t2(1) by simp
      moreover have "failStop (pipelineCalls e v ?p) (t2 @ [(Fprintf, False)])"
        unfolding t2s pipelineCalls_def by simp
      ultimately show ?thesis using st by auto
    next
      case None3: None
      then have "run e w = Some (r4, w4)"
        using assms db None fp rn by (simp add: run_def)
      moreover from sys_effect [OF fp] sysOn_effect [OF rn] None3
      have tr: "trace w4 = trace w1 @ t2 @ [(Fprintf, True), (Run ?p (args e), r4 = None)]"
        and fl: "files w4 = files w2"
        using t2(1) by simp_all
      moreover have "failStop (pipelineCalls e v ?p)
                       (t2 @ [(Fprintf, True), (Run ?p (args e), r4 = None)])"
        unfolding t2s pipelineCalls_def by simp
      moreover have "r4 = None \<longrightarrow> t2 @ [(Fprintf, True), (Run ?p (args e), r4 = None)]
                       = succeeded (pipelineCalls e v ?p)"
        unfolding t2s pipelineCalls_def by simp
      ultimately show ?thesis using st t2(3) None by auto
    qed
  qed
qed

text \<open>
  Claim C1, as the code has it. On a cache miss (the existence check returned an error)
  the run makes its calls in the order of \<open>pipelineCalls\<close>: download of the artifact into
  the temporary file, fetch of the manifest, fetch of the signature, signature
  verification, look-up of the expected hash, hashing of the temporary file,
  installation (copy, then chmod), removal of the temporary file, the message, launch.
  Every call before the first failure has succeeded, and after the first call that
  fails or is left out only cleanup calls are made. In particular: the manifest is
  requested only after the artifact has been written; the signature is verified only
  after it has been read; the hash is looked up only after the verification has
  succeeded; installation begins only after the file has been hashed and the signature
  verified; the binary is launched only after chmod has succeeded.
\<close>

theorem cache_miss_pipeline_order:
  assumes "getBufVersion e = Some (Inr v)" and "getCacheDirPath e = Inr c"
    and "sysOn e (Stat (getBufFilePath e c v)) (getBufFilePath e c v) w = (Some statErr, w1)"
  shows "\<exists>r w'. run e w = Some (r, w')
       \<and> newTrace w w' = (Stat (getBufFilePath e c v), False) # newTrace w1 w'
       \<and> failStop (pipelineCalls e v (getBufFilePath e c v)) (newTrace w1 w')
       \<and> onlyAfter (CopyTo (tempName e)) (NewRequest (getFileURL v ''sha256.txt'')) (newTrace w1 w')
       \<and> onlyAfter (ReadAll (getFileURL v ''sha256.txt.minisig'')) Verify (newTrace w1 w')
       \<and> onlyAfter Verify GetSha256Hex (newTrace w1 w')
       \<and> onlyAfter (HashCopy (tempName e)) (MkdirAll (Dir (getBufFilePath e c v))) (newTrace w1 w')
       \<and> onlyAfter Verify (MkdirAll (Dir (getBufFilePath e c v))) (newTrace w1 w')
       \<and> onlyAfter (Chmod (getBufFilePath e c v)) (Run (getBufFilePath e c v) (args e))
            (newTrace w1 w')"
proof -
  let ?p = "getBufFilePath e c v"
  let ?N = "pipelineCalls e v ?p"
  from run_cache_miss [OF assms] obtain r w' t where
    run: "run e w = Some (r, w')" and st: "trace w1 = trace w @ [(Stat ?p, False)]"
    and t: "trace w' = trace w1 @ t" and fs: "failStop ?N t"
    by blast
  have nt: "newTrace w1 w' = t" "newTrace w w' = (Stat ?p, False) # t"
    using st t by simp_all
  have N: "?N = artifactCalls e (getFileURL v (bufFileName e))
     @ dataCalls (getFileURL v ''sha256.txt'')
     @ dataCalls (getFileURL v ''sha256.txt.minisig'')
     @ Verify # GetSha256Hex
     # hashCalls (tempName e)
     @ copyCalls (tempName e) ?p
     @ [Chmod ?p, Remove (tempName e), Fprintf, Run ?p (args e)]"
    by (simp add: pipelineCalls_def downloadCalls_def)
  have a1: "onlyAfter (CopyTo (tempName e)) (NewRequest (getFileURL v ''sha256.txt'')) t"
    by (rule failStop_onlyAfter [OF fs])
      (simp_all add: N artifactCalls_def dataCalls_def hashCalls_def copyCalls_def)
  have a2: "onlyAfter (ReadAll (getFileURL v ''sha256.txt.minisig'')) Verify t"
    by (rule failStop_onlyAfter [OF fs])
      (simp_all add: N artifactCalls_def dataCalls_def hashCalls_def copyCalls_def)
  have a3: "onlyAfter Verify GetSha256Hex t"
    by (rule failStop_onlyAfter [OF fs])
      (simp_all add: N artifactCalls_def dataCalls_def hashCalls_def copyCalls_def)
  have a4: "onlyAfter (HashCopy (tempName e)) (MkdirAll (Dir ?p)) t"
    by (rule failStop_onlyAfter [OF fs])
      (simp_all add: N artifactCalls_def dataCalls_def hashCalls_def copyCalls_def)
  have a5: "onlyAfter Verify (MkdirAll (Dir ?p)) t"
    by (rule failStop_onlyAfter [OF fs])
      (simp_all add: N artifactCalls_def dataCalls_def hashCalls_def copyCalls_def)
  have a6: "onlyAfter (Chmod ?p) (Run ?p (args e)) t"
    by (rule failStop_onlyAfter [OF fs])
      (simp_all add: N artifactCalls_def dataCalls_def hashCalls_def copyCalls_def)
  show ?thesis
    by (intro exI [of _ r] exI [of _ w'] conjI) (simp_all add: run nt fs a1 a2 a3 a4 a5 a6)
qed

text \<open>
  Claim C9. Whatever error the existence check returns (the file may well exist), \<open>run\<close>
  continues with \<open>downloadBufToFilePath\<close>, the message and the launch. When the run
  returns no error, all calls of \<open>pipelineCalls\<close> have been made and have succeeded, and
  the cache path holds the body served for the artifact, whatever it held before.
\<close>

theorem stat_error_is_cache_miss:
  assumes "getBufVersion e = Some (Inr v)" and "getCacheDirPath e = Inr c"
    and "sysOn e (Stat (getBufFilePath e c v)) (getBufFilePath e c v) w = (Some statErr, w1)"
  shows "\<exists>r w'. run e w
           = Some (case downloadBufToFilePath e v (getBufFilePath e c v) w1 of
                     (Some err, w2) \<Rightarrow> (Some err, w2)
                   | (None, w2) \<Rightarrow>
                       (case sys e Fprintf w2 of
                          (Some err, w3) \<Rightarrow> (Some err, w3)
                        | (None, w3) \<Rightarrow>
                            sysOn e (Run (getBufFilePath e c v) (args e)) (getBufFilePath e c v) w3))
       \<and> run e w = Some (r, w')
       \<and> failStop (pipelineCalls e v (getBufFilePath e c v)) (newTrace w1 w')
       \<and> (r = None \<longrightarrow>
            newTrace w1 w' = succeeded (pipelineCalls e v (getBufFilePath e c v))
            \<and> (tempName e \<noteq> getBufFilePath e c v \<longrightarrow>
                  files w' (getBufFilePath e c v)
                    = Some (Body (http e (getFileURL v (bufFileName e))))))"
proof -
  from run_cache_miss [OF assms] obtain r w' t where
    r: "run e w = Some (r, w')" and t: "trace w' = trace w1 @ t"
    and f: "failStop (pipelineCalls e v (getBufFilePath e c v)) t"
    and s: "r = None \<longrightarrow> t = succeeded (pipelineCalls e v (getBufFilePath e c v))
            \<and> (tempName e \<noteq> getBufFilePath e c v \<longrightarrow>
                  files w' (getBufFilePath e c v)
                    = Some (Body (http e (getFileURL v (bufFileName e)))))"
    by blast
  from t have nt: "newTrace w1 w' = t" by simp
  have "run e w
           = Some (case downloadBufToFilePath e v (getBufFilePath e c v) w1 of
                     (Some err, w2) \<Rightarrow> (Some err, w2)
                   | (None, w2) \<Rightarrow>
                       (case sys e Fprintf w2 of
                          (Some err, w3) \<Rightarrow> (Some err, w3)
                        | (None, w3) \<Rightarrow>
                            sysOn e (Run (getBufFilePath e c v) (args e)) (getBufFilePath e c v) w3))"
    using assms by (simp add: run_def Let_def split: prod.splits option.splits)
  then show ?thesis
    using r f s by (intro exI [of _ r] exI [of _ w'] conjI) (simp_all add: nt)
qed

text \<open>
  Claim C7, as the code has it. A cache hit is a successful existence check
  (\<^verbatim>\<open>os.Stat\<close> returns no error), not the mere presence of the file. When the check
  succeeds, the only calls of the run are the check and the launch of the cached binary:
  no request is built or sent, and no file changes.
\<close>

theorem cache_hit_no_network:
  assumes "getBufVersion e = Some (Inr v)" and "getCacheDirPath e = Inr c"
    and "sysOn e (Stat (getBufFilePath e c v)) (getBufFilePath e c v) w = (None, w1)"
  shows "\<exists>r w'. run e w = Some (r, w')
       \<and> calls (newTrace w w')
           = [Stat (getBufFilePath e c v), Run (getBufFilePath e c v) (args e)]
       \<and> (\<forall>u. NewRequest u \<notin> set (calls (newTrace w w')) \<and> Do u \<notin> set (calls (newTrace w w')))
       \<and> files w' = files w"
proof -
  let ?p = "getBufFilePath e c v"
  obtain r w' where rn: "sysOn e (Run ?p (args e)) ?p w1 = (r, w')"
    by (cases "sysOn e (Run ?p (args e)) ?p w1")
  have "run e w = Some (r, w')"
    using assms rn by (simp add: run_def)
  moreover from sysOn_effect [OF assms(3)] sysOn_effect [OF rn]
  have "trace w' = trace w @ [(Stat ?p, True), (Run ?p (args e), r = None)]" "files w' = files w"
    by simp_all
  ultimately show ?thesis by (simp add: calls_def)
qed

subsection \<open>Verification and installation\<close>

lemmas eval_defs = run_def getBufVersion_def getCacheDirPath_def getDefaultCacheDirPath_def
  getBufFilePath_def validateBufVersion_def Split_def Atoi_def isDigit_def digitsValue_def
  intSize_def Join_def Clean_def Dir_def downloadBufToFilePath_def downloadTempFile_def
  downloadData_def download_def hashFile_def copyFile_def verifySha256TxtData_def
  getSha256HexForTxtData_def prims contents_def getFileURL_def bufFileName_def
  executableSuffix_def useBufVersionEnvKey_def cacheDirPathEnvKey_def minisignPublicKey_def
  Let_def suffix_to_prefix

lemmas env_defs = env0_def envRun_def envBadHash_def envOtherKey_def envStatDenied_def
  envBodyCut_def envDiskFull_def bufPath0_def world0_def worldCached_def worldTemp_def

text \<open>
  Claim C2. Let the artifact be downloaded to \<open>tmp\<close>, the manifest and its signature be
  fetched and verified, \<open>expected\<close> be the manifest's digest for the artifact and \<open>h\<close>
  the digest of the temporary file, \<open>h \<noteq> expected\<close>. Then \<open>downloadBufToFilePath\<close>
  returns the mismatch error holding both digests, the cache path \<open>p\<close> is what it was
  before (absent if it was absent), and neither the directory creation, nor the creation
  of \<open>p\<close>, nor the copy into it, nor chmod is among the calls. (\<open>tmp \<noteq> p\<close>: the
  temporary file is not the cache path.)
\<close>

theorem hash_mismatch_fails_closed:
  assumes "downloadTempFile e (getFileURL v (bufFileName e)) w = (Inr tmp, w1)"
    and "downloadData e (getFileURL v ''sha256.txt'') w1 = (Inr mtxt, w2)"
    and "downloadData e (getFileURL v ''sha256.txt.minisig'') w2 = (Inr stxt, w3)"
    and "verifySha256TxtData e mtxt stxt w3 = (None, w4)"
    and "getSha256HexForTxtData mtxt (bufFileName e) = Inr expected"
    and "hashFile e tmp (logCall GetSha256Hex True w4) = (Inr h, w5)"
    and "h \<noteq> expected" and "tmp \<noteq> p"
  shows "\<exists>w'. downloadBufToFilePath e v p w
                = (Some (Sha256Mismatch (bufFileName e) h expected), w')
       \<and> files w' p = files w p
       \<and> MkdirAll (Dir p) \<notin> set (calls (newTrace w w'))
       \<and> Create p \<notin> set (calls (newTrace w w'))
       \<and> CopyTo p \<notin> set (calls (newTrace w w'))
       \<and> Chmod p \<notin> set (calls (newTrace w w'))"
proof -
  obtain rr w' where rm: "osRemove e tmp w5 = (rr, w')" by (cases "osRemove e tmp w5")
  have res: "downloadBufToFilePath e v p w = (Some (Sha256Mismatch (bufFileName e) h expected), w')"
    using assms rm by (simp add: downloadBufToFilePath_def Let_def split: option.splits)
  from downloadTempFile_effect [OF assms(1)] have tmp: "tmp = tempName e"
    and f1: "files w1 p = files w p"
    and t1: "trace w1 = trace w @ succeeded (artifactCalls e (getFileURL v (bufFileName e)))"
    using assms(8) by auto
  from downloadData_effect [OF assms(2)] have f2: "files w2 = files w1"
    and t2: "trace w2 = trace w1 @ succeeded (dataCalls (getFileURL v ''sha256.txt''))"
    by auto
  from downloadData_effect [OF assms(3)] have f3: "files w3 = files w2"
    and t3: "trace w3 = trace w2 @ succeeded (dataCalls (getFileURL v ''sha256.txt.minisig''))"
    by auto
  from verifySha256TxtData_effect [OF assms(4)] have f4: "files w4 = files w3"
    and t4: "trace w4 = trace w3 @ [(Verify, True)]"
    by auto
  from hashFile_effect [OF assms(6)] have f5: "files w5 = files w4"
    and t5: "trace w5 = trace w4 @ [(GetSha256Hex, True)] @ succeeded (hashCalls tmp)"
    by auto
  from osRemove_effect [OF rm] have f6: "files w' p = files w5 p"
    and t6: "trace w' = trace w5 @ [(Remove tmp, rr = None)]"
    using assms(8) by auto
  have "files w' p = files w p"
    using f1 f2 f3 f4 f5 f6 by simp
  moreover have "calls (newTrace w w')
      = artifactCalls e (getFileURL v (bufFileName e))
        @ dataCalls (getFileURL v ''sha256.txt'')
        @ dataCalls (getFileURL v ''sha256.txt.minisig'')
        @ [Verify, GetSha256Hex] @ hashCalls tmp @ [Remove tmp]"
    using t1 t2 t3 t4 t5 t6 by (simp add: calls_def succeeded_def comp_def)
  ultimately show ?thesis
    using res assms(8) tmp
    by (simp add: artifactCalls_def dataCalls_def hashCalls_def)
qed

text \<open>
  Claim C6. When the signature parses and its key identifier is not the identifier of
  the embedded public key, \<open>verifySha256TxtData\<close> returns the key mismatch error and
  leaves the trace as it is: \<^verbatim>\<open>minisign.Verify\<close> is not called. And in every run of
  \<open>downloadBufToFilePath\<close> the expected hash is looked up in the manifest only after
  \<^verbatim>\<open>minisign.Verify\<close> has succeeded.
\<close>

theorem key_mismatch_never_verified:
  "(publicKeyUnmarshalText e minisignPublicKey = Inr pk
      \<and> signatureUnmarshalText e stxt = Inr sg \<and> KeyID sg \<noteq> ID pk \<longrightarrow>
        verifySha256TxtData e mtxt stxt w = (Some (KeyIDMismatch (ID pk) (KeyID sg)), w)
        \<and> Verify \<notin> set (calls (newTrace w (snd (verifySha256TxtData e mtxt stxt w)))))
   \<and> onlyAfter Verify GetSha256Hex (newTrace w (snd (downloadBufToFilePath e v p w)))"
proof (intro conjI impI)
  assume k: "publicKeyUnmarshalText e minisignPublicKey = Inr pk
      \<and> signatureUnmarshalText e stxt = Inr sg \<and> KeyID sg \<noteq> ID pk"
  then show "verifySha256TxtData e mtxt stxt w = (Some (KeyIDMismatch (ID pk) (KeyID sg)), w)"
    by (simp add: verifySha256TxtData_def)
  then show "Verify \<notin> set (calls (newTrace w (snd (verifySha256TxtData e mtxt stxt w))))"
    by (simp add: newTrace_def calls_def)
next
  obtain r w' where db: "downloadBufToFilePath e v p w = (r, w')"
    by (cases "downloadBufToFilePath e v p w")
  from downloadBufToFilePath_failStop [OF db] obtain t where
    t: "trace w' = trace w @ t" "failStop (downloadCalls e v p) t" by blast
  have "onlyAfter Verify GetSha256Hex t"
    by (rule failStop_onlyAfter [OF t(2)])
      (simp_all add: downloadCalls_def artifactCalls_def dataCalls_def hashCalls_def copyCalls_def)
  then show "onlyAfter Verify GetSha256Hex (newTrace w (snd (downloadBufToFilePath e v p w)))"
    using db t(1) by simp
qed

text \<open>
  Claim C3, as the code has it. \<open>copyFile\<close> writes into the final path itself: its calls
  are those of \<open>copyCalls\<close> (create the directory, open the source, create the
  destination, copy, close both), no other path changes, and there is no rename. When it
  returns no error the destination holds the whole source. Once the destination has been
  created it holds a prefix of the source, the whole of it or less.
\<close>

theorem copyFile_writes_in_place:
  assumes "copyFile e src dst w = (r, w')" and "src \<noteq> dst" and "files w src = Some data"
  shows "(r = None \<longrightarrow> files w' dst = Some data)
       \<and> ((Create dst, True) \<notin> set (newTrace w w') \<longrightarrow> files w' dst = files w dst)
       \<and> ((Create dst, True) \<in> set (newTrace w w') \<longrightarrow>
             (\<exists>d. files w' dst = Some d \<and> prefix d data))
       \<and> (\<forall>q. q \<noteq> dst \<longrightarrow> files w' q = files w q)
       \<and> failStop (copyCalls src dst) (newTrace w w')"
  using assms unfolding copyFile_def copyCalls_def newTrace_def
  by (auto simp: prims contents_def take_is_prefix Let_def
           split: prod.splits sum.splits option.splits if_splits)

text \<open>
  Claim C3 as stated fails: in \<open>envDiskFull\<close> the copy into the cache path fails after one
  byte, and \<open>copyFile\<close> returns with the cache path holding that one byte of the three.
  Its calls name the cache path and the source only.
\<close>

theorem copyFile_partial_file_counterexample:
  "fst (copyFile envDiskFull ''/tmp/bufisk42'' bufPath0 worldTemp)
     = Some (OSError ''no space left on device'')
   \<and> files worldTemp ''/tmp/bufisk42'' = Some ''ELF''
   \<and> files (snd (copyFile envDiskFull ''/tmp/bufisk42'' bufPath0 worldTemp)) bufPath0 = Some ''E''
   \<and> calls (trace (snd (copyFile envDiskFull ''/tmp/bufisk42'' bufPath0 worldTemp)))
       = [MkdirAll ''/home/u/.cache/bufisk/Linux/x86_64/releases/buf/1.28.1/bin'',
          Open ''/tmp/bufisk42'', Create bufPath0, CopyTo bufPath0, Close bufPath0,
          Close ''/tmp/bufisk42'']"
  by (simp add: eval_defs env_defs calls_def)

text \<open>
  A copy that succeeds.
\<close>

theorem copyFile_writes_in_place_witness:
  "files (snd (copyFile envRun ''/tmp/bufisk42'' bufPath0 worldTemp)) bufPath0 = Some ''ELF''"
proof -
  have r: "fst (copyFile envRun ''/tmp/bufisk42'' bufPath0 worldTemp) = None"
    by (simp add: eval_defs env_defs)
  have c: "copyFile envRun ''/tmp/bufisk42'' bufPath0 worldTemp
      = (fst (copyFile envRun ''/tmp/bufisk42'' bufPath0 worldTemp),
         snd (copyFile envRun ''/tmp/bufisk42'' bufPath0 worldTemp))"
    by simp
  have n: "''/tmp/bufisk42'' \<noteq> bufPath0" by (simp add: bufPath0_def)
  have f: "files worldTemp ''/tmp/bufisk42'' = Some ''ELF''" by (simp add: worldTemp_def)
  from copyFile_writes_in_place [OF c n f] r show ?thesis by simp
qed

text \<open>
  Claim C5 fails on the code. In \<open>envBodyCut\<close> the temporary file is created and the copy
  of the response body into it fails after two bytes. \<open>downloadTempFile\<close> returns the
  error without a path, so \<open>downloadBufToFilePath\<close> returns before its deferred removal
  is registered: \<^verbatim>\<open>Remove\<close> is not among the calls and the temporary file stays, with
  the two bytes.
\<close>

theorem temp_file_left_behind:
  "fst (downloadBufToFilePath envBodyCut ''1.28.1'' bufPath0 world0)
     = Some (CouldNotDownloadBuf ''1.28.1'' (OSError ''unexpected EOF''))
   \<and> trace (snd (downloadBufToFilePath envBodyCut ''1.28.1'' bufPath0 world0))
       = [(NewRequest (getFileURL ''1.28.1'' ''buf-Linux-x86_64''), True),
          (Do (getFileURL ''1.28.1'' ''buf-Linux-x86_64''), True),
          (CreateTemp, True), (CopyTo ''/tmp/bufisk42'', False), (Close ''/tmp/bufisk42'', True),
          (BodyClose (getFileURL ''1.28.1'' ''buf-Linux-x86_64''), True)]
   \<and> files (snd (downloadBufToFilePath envBodyCut ''1.28.1'' bufPath0 world0)) ''/tmp/bufisk42''
       = Some ''EL''"
  by (simp add: eval_defs env_defs)

text \<open>
  The run of \<open>envRun\<close> from an empty file system is a cache miss.
\<close>

theorem cache_miss_pipeline_order_witness:
  "\<exists>r w'. run envRun world0 = Some (r, w')
     \<and> failStop (pipelineCalls envRun ''1.28.1'' bufPath0)
          (newTrace (logCall (Stat bufPath0) False world0) w')
     \<and> onlyAfter Verify (MkdirAll (Dir bufPath0)) (newTrace (logCall (Stat bufPath0) False world0) w')
     \<and> onlyAfter (Chmod bufPath0) (Run bufPath0 [''lint''])
          (newTrace (logCall (Stat bufPath0) False world0) w')"
proof -
  have v: "getBufVersion envRun = Some (Inr ''1.28.1'')"
    by (simp add: eval_defs env_defs)
  have c: "getCacheDirPath envRun = Inr ''/home/u/.cache/bufisk''"
    by (simp add: eval_defs env_defs)
  have p: "getBufFilePath envRun ''/home/u/.cache/bufisk'' ''1.28.1'' = bufPath0"
    by (simp add: eval_defs env_defs)
  have s: "sysOn envRun (Stat (getBufFilePath envRun ''/home/u/.cache/bufisk'' ''1.28.1''))
             (getBufFilePath envRun ''/home/u/.cache/bufisk'' ''1.28.1'') world0
           = (Some (OSError ''no such file or directory''), logCall (Stat bufPath0) False world0)"
    unfolding p by (simp add: sysOn_def world0_def)
  have a: "args envRun = [''lint'']" by (simp add: env_defs)
  from cache_miss_pipeline_order [OF v c s] show ?thesis
    unfolding p a by blast
qed

text \<open>
  Claim C1 as stated fails: the run of \<open>envRun\<close> from an empty file system succeeds, and
  it requests and stores the artifact before it fetches the manifest; the artifact
  request is not preceded by a signature verification.
\<close>

theorem manifest_before_artifact_counterexample:
  "fst (the (run envRun world0)) = None
   \<and> calls (trace (snd (the (run envRun world0))))
       = [Stat bufPath0,
          NewRequest (getFileURL ''1.28.1'' ''buf-Linux-x86_64''),
          Do (getFileURL ''1.28.1'' ''buf-Linux-x86_64''),
          CreateTemp, CopyTo ''/tmp/bufisk42'', Close ''/tmp/bufisk42'',
          BodyClose (getFileURL ''1.28.1'' ''buf-Linux-x86_64''),
          NewRequest (getFileURL ''1.28.1'' ''sha256.txt''),
          Do (getFileURL ''1.28.1'' ''sha256.txt''),
          ReadAll (getFileURL ''1.28.1'' ''sha256.txt''),
          BodyClose (getFileURL ''1.28.1'' ''sha256.txt''),
          NewRequest (getFileURL ''1.28.1'' ''sha256.txt.minisig''),
          Do (getFileURL ''1.28.1'' ''sha256.txt.minisig''),
          ReadAll (getFileURL ''1.28.1'' ''sha256.txt.minisig''),
          BodyClose (getFileURL ''1.28.1'' ''sha256.txt.minisig''),
          Verify, GetSha256Hex,
          Open ''/tmp/bufisk42'', HashCopy ''/tmp/bufisk42'', Close ''/tmp/bufisk42'',
          MkdirAll (Dir bufPath0), Open ''/tmp/bufisk42'', Create bufPath0, CopyTo bufPath0,
          Close bufPath0, Close ''/tmp/bufisk42'', Chmod bufPath0, Remove ''/tmp/bufisk42'',
          Fprintf, Run bufPath0 [''lint'']]
   \<and> \<not> onlyAfter Verify (Do (getFileURL ''1.28.1'' ''buf-Linux-x86_64''))
         (trace (snd (the (run envRun world0))))"
  by (simp add: eval_defs env_defs calls_def)

text \<open>
  The run of \<open>envRun\<close> with a file at the cache path.
\<close>

theorem cache_hit_no_network_witness:
  "\<exists>r w'. run envRun worldCached = Some (r, w')
     \<and> calls (newTrace worldCached w') = [Stat bufPath0, Run bufPath0 [''lint'']]
     \<and> files w' = files worldCached"
proof -
  have v: "getBufVersion envRun = Some (Inr ''1.28.1'')"
    by (simp add: eval_defs env_defs)
  have c: "getCacheDirPath envRun = Inr ''/home/u/.cache/bufisk''"
    by (simp add: eval_defs env_defs)
  have p: "getBufFilePath envRun ''/home/u/.cache/bufisk'' ''1.28.1'' = bufPath0"
    by (simp add: eval_defs env_defs)
  have s: "sysOn envRun (Stat (getBufFilePath envRun ''/home/u/.cache/bufisk'' ''1.28.1''))
             (getBufFilePath envRun ''/home/u/.cache/bufisk'' ''1.28.1'') worldCached
           = (None, logCall (Stat bufPath0) True worldCached)"
    unfolding p by (simp add: sysOn_def sys_def env_defs)
  have a: "args envRun = [''lint'']" by (simp add: env_defs)
  from cache_hit_no_network [OF v c s] show ?thesis
    unfolding p a by blast
qed

text \<open>
  Claim C7 as stated fails: in \<open>envStatDenied\<close> the artifact is present at the computed
  cache path and the existence check fails with a permission error. The run then
  requests the artifact, the manifest and the signature before it launches the binary.
\<close>

theorem cache_present_stat_denied_counterexample:
  "getBufVersion envStatDenied = Some (Inr ''1.28.1'')
   \<and> getCacheDirPath envStatDenied = Inr ''/home/u/.cache/bufisk''
   \<and> getBufFilePath envStatDenied ''/home/u/.cache/bufisk'' ''1.28.1'' = bufPath0
   \<and> files worldCached bufPath0 = Some ''OLD''
   \<and> take 3 (trace (snd (the (run envStatDenied worldCached))))
       = [(Stat bufPath0, False),
          (NewRequest (getFileURL ''1.28.1'' ''buf-Linux-x86_64''), True),
          (Do (getFileURL ''1.28.1'' ''buf-Linux-x86_64''), True)]
   \<and> Do (getFileURL ''1.28.1'' ''buf-Linux-x86_64'')
         \<in> set (calls (trace (snd (the (run envStatDenied worldCached)))))
   \<and> Do (getFileURL ''1.28.1'' ''sha256.txt'')
         \<in> set (calls (trace (snd (the (run envStatDenied worldCached)))))
   \<and> Do (getFileURL ''1.28.1'' ''sha256.txt.minisig'')
         \<in> set (calls (trace (snd (the (run envStatDenied worldCached)))))"
  by (simp add: eval_defs env_defs calls_def)

text \<open>
  In \<open>envStatDenied\<close> the cache path holds a file and the existence check fails with a
  permission error: the release is downloaded, verified and installed over the file.
\<close>

theorem stat_error_is_cache_miss_witness:
  "\<exists>w'. run envStatDenied worldCached = Some (None, w')
     \<and> files worldCached bufPath0 = Some ''OLD''
     \<and> files w' bufPath0 = Some ''ELF''"
proof -
  have v: "getBufVersion envStatDenied = Some (Inr ''1.28.1'')"
    by (simp add: eval_defs env_defs)
  have c: "getCacheDirPath envStatDenied = Inr ''/home/u/.cache/bufisk''"
    by (simp add: eval_defs env_defs)
  have p: "getBufFilePath envStatDenied ''/home/u/.cache/bufisk'' ''1.28.1'' = bufPath0"
    by (simp add: eval_defs env_defs)
  have s: "sysOn envStatDenied (Stat (getBufFilePath envStatDenied ''/home/u/.cache/bufisk'' ''1.28.1''))
             (getBufFilePath envStatDenied ''/home/u/.cache/bufisk'' ''1.28.1'') worldCached
           = (Some (OSError ''permission denied''), logCall (Stat bufPath0) False worldCached)"
    unfolding p by (simp add: sysOn_def sys_def env_defs)
  have r: "fst (the (run envStatDenied worldCached)) = None"
    by (simp add: eval_defs env_defs)
  have t: "tempName envStatDenied \<noteq> bufPath0" by (simp add: env_defs)
  have b: "Body (http envStatDenied (getFileURL ''1.28.1'' (bufFileName envStatDenied))) = ''ELF''"
    by (simp add: eval_defs env_defs)
  have o: "files worldCached bufPath0 = Some ''OLD''" by (simp add: env_defs)
  from stat_error_is_cache_miss [OF v c s] obtain r' w' where
    run: "run envStatDenied worldCached = Some (r', w')"
    and inst: "r' = None \<longrightarrow> (tempName envStatDenied \<noteq> bufPath0 \<longrightarrow>
                  files w' bufPath0
                    = Some (Body (http envStatDenied
                                   (getFileURL ''1.28.1'' (bufFileName envStatDenied)))))"
    unfolding p by blast
  from run r have "r' = None" by simp
  with run inst t b o show ?thesis by simp
qed

text \<open>
  In \<open>envOtherKey\<close> the signature carries key identifier 2, the embedded key has 1.
\<close>

theorem key_mismatch_never_verified_witness:
  "verifySha256TxtData envOtherKey ''m'' ''sig'' world0 = (Some (KeyIDMismatch 1 2), world0)"
proof -
  have "publicKeyUnmarshalText envOtherKey minisignPublicKey
          = Inr \<lparr>ID = 1, keyBytes = minisignPublicKey\<rparr>
      \<and> signatureUnmarshalText envOtherKey ''sig'' = Inr \<lparr>KeyID = 2, signatureBytes = ''sig''\<rparr>
      \<and> KeyID \<lparr>KeyID = 2, signatureBytes = ''sig''\<rparr> \<noteq> ID \<lparr>ID = 1, keyBytes = minisignPublicKey\<rparr>"
    by (simp add: env_defs)
  with key_mismatch_never_verified [of envOtherKey "\<lparr>ID = 1, keyBytes = minisignPublicKey\<rparr>"
      "''sig''" "\<lparr>KeyID = 2, signatureBytes = ''sig''\<rparr>" "''m''" world0]
  show ?thesis by simp
qed

text \<open>
  In \<open>envBadHash\<close> the manifest declares \<^verbatim>\<open>0b\<close> and the file hashes to \<^verbatim>\<open>ff\<close>.
\<close>

theorem hash_mismatch_fails_closed_witness:
  "\<exists>w'. downloadBufToFilePath envBadHash ''1.28.1'' bufPath0 world0
           = (Some (Sha256Mismatch ''buf-Linux-x86_64'' ''ff'' ''0b''), w')
     \<and> files w' bufPath0 = None"
proof -
  let ?e = envBadHash
  define w1 where "w1 = snd (downloadTempFile ?e (getFileURL ''1.28.1'' (bufFileName ?e)) world0)"
  define w2 where "w2 = snd (downloadData ?e (getFileURL ''1.28.1'' ''sha256.txt'') w1)"
  define w3 where "w3 = snd (downloadData ?e (getFileURL ''1.28.1'' ''sha256.txt.minisig'') w2)"
  define m where "m = ''0a  buf-Darwin-arm64'' @ [CHR 0x0A] @ ''0b  buf-Linux-x86_64'' @ [CHR 0x0A]"
  define w4 where "w4 = snd (verifySha256TxtData ?e m ''sig'' w3)"
  define w5 where "w5 = snd (hashFile ?e ''/tmp/bufisk42'' (logCall GetSha256Hex True w4))"
  have h1: "downloadTempFile ?e (getFileURL ''1.28.1'' (bufFileName ?e)) world0
      = (Inr ''/tmp/bufisk42'', w1)"
    unfolding w1_def by (simp add: eval_defs env_defs)
  have h2: "downloadData ?e (getFileURL ''1.28.1'' ''sha256.txt'') w1 = (Inr m, w2)"
    unfolding w2_def w1_def m_def by (simp add: eval_defs env_defs)
  have h3: "downloadData ?e (getFileURL ''1.28.1'' ''sha256.txt.minisig'') w2 = (Inr ''sig'', w3)"
    unfolding w3_def w2_def w1_def by (simp add: eval_defs env_defs)
  have h4: "verifySha256TxtData ?e m ''sig'' w3 = (None, w4)"
    unfolding w4_def w3_def w2_def w1_def m_def by (simp add: eval_defs env_defs)
  have h5: "getSha256HexForTxtData m (bufFileName ?e) = Inr ''0b''"
    unfolding m_def by (simp add: eval_defs env_defs)
  have h6: "hashFile ?e ''/tmp/bufisk42'' (logCall GetSha256Hex True w4) = (Inr ''ff'', w5)"
    unfolding w5_def w4_def w3_def w2_def w1_def m_def by (simp add: eval_defs env_defs)
  have h7: "''ff'' \<noteq> ''0b''" by simp
  have h8: "''/tmp/bufisk42'' \<noteq> bufPath0" by (simp add: bufPath0_def)
  have n: "bufFileName ?e = ''buf-Linux-x86_64''" by (simp add: eval_defs env_defs)
  have f: "files world0 bufPath0 = None" by (simp add: world0_def)
  from hash_mismatch_fails_closed [OF h1 h2 h3 h4 h5 h6 h7 h8] show ?thesis
    unfolding n f by blast
qed

end
